theory Spec2Isabelle
  imports Complex_Main "HOL-Library.Code_Target_Nat"
begin

section \<open>JavaScript strings\<close>

text \<open>
  A JavaScript string is a sequence of UTF-16 code units.  A code unit is modelled as a
  natural number, so that the non-ASCII literals of the source and the results of
  percent-decoding are representable.  \<open>js\<close> embeds an ASCII literal.
\<close>

type_synonym jsstring = "nat list"

definition js :: "string \<Rightarrow> jsstring" where
  "js s = map of_char s"

text \<open>White space and line terminators: what \<open>String.prototype.trim\<close> strips and what
  \<open>\s\<close> matches in a regular expression.\<close>

definition isWhiteSpace :: "nat \<Rightarrow> bool" where
  "isWhiteSpace c \<longleftrightarrow>
     c = 9 \<or> c = 10 \<or> c = 11 \<or> c = 12 \<or> c = 13 \<or> c = 32 \<or> c = 160 \<or> c = 5760
     \<or> (8192 \<le> c \<and> c \<le> 8202) \<or> c = 8232 \<or> c = 8233 \<or> c = 8239 \<or> c = 8287
     \<or> c = 12288 \<or> c = 65279"

definition trim :: "jsstring \<Rightarrow> jsstring" where
  "trim s = rev (dropWhile isWhiteSpace (rev (dropWhile isWhiteSpace s)))"

fun startsWith :: "jsstring \<Rightarrow> jsstring \<Rightarrow> bool" where
  "startsWith s [] = True"
| "startsWith [] (p # ps) = False"
| "startsWith (c # cs) (p # ps) = (c = p \<and> startsWith cs ps)"

text \<open>\<open>s.includes(t)\<close>: \<open>t\<close> occurs in \<open>s\<close> as a contiguous substring.\<close>

fun js_includes :: "jsstring \<Rightarrow> jsstring \<Rightarrow> bool" where
  "js_includes [] t = (t = [])"
| "js_includes (c # cs) t = (startsWith (c # cs) t \<or> js_includes cs t)"

text \<open>\<open>s.split('/').pop()\<close>: the part of \<open>s\<close> after its last slash, all of \<open>s\<close> when
  it has none.  The array that \<open>split\<close> returns is never empty.\<close>

definition lastSegment :: "jsstring \<Rightarrow> jsstring" where
  "lastSegment s = rev (takeWhile (\<lambda>c. c \<noteq> 47) (rev s))"

text \<open>Number to string, for integer-valued numbers below \<open>2^53\<close> in magnitude: those a
  double holds exactly, which are printed digit by digit.\<close>

fun str_nat :: "nat \<Rightarrow> jsstring" where
  "str_nat n = (if n < 10 then [48 + n] else str_nat (n div 10) @ [48 + n mod 10])"

declare str_nat.simps [simp del]

definition number_toString :: "int \<Rightarrow> jsstring" where
  "number_toString n = (if n < 0 then 45 # str_nat (nat (- n)) else str_nat (nat n))"

text \<open>The remainder operator \<open>%\<close> truncates: the result has the sign of the dividend.\<close>

definition js_rem :: "int \<Rightarrow> int \<Rightarrow> int" where
  "js_rem a b = sgn a * (\<bar>a\<bar> mod \<bar>b\<bar>)"

section \<open>formatDuration\<close>

text \<open>
  \<^verbatim>\<open>function formatDuration(seconds: number): string {
    const m = Math.floor(seconds / 60);
    const s = seconds % 60;
    return `${m}:${s < 10 ? '0' : ''}${s}`;
  }\<close>
  on integer-valued \<open>seconds\<close> below \<open>2^53\<close> in magnitude.  There the division of the
  source, which is done on doubles, has the floor that the exact quotient has, the remainder
  is exact, and both numbers are printed digit by digit.  Above \<open>2^53\<close> the source rounds
  and the definition does not.
\<close>

definition formatDuration :: "int \<Rightarrow> jsstring" where
  "formatDuration seconds =
     (let m = seconds div 60;
          s = js_rem seconds 60
      in number_toString m @ js '':'' @ (if s < 10 then js ''0'' else js '''') @ number_toString s)"

section \<open>Regular expressions\<close>

text \<open>
  The fragment of JavaScript regular expressions that the source uses: characters,
  character classes, sequence, ordered alternative, the greedy star and the end-of-input
  assertion.  \<open>ends r s\<close> lists what is left of \<open>s\<close> after each way \<open>r\<close> can match at
  its start, in the order in which a backtracking matcher tries them: the left alternative
  before the right one, one more iteration of a star before stopping.  A star iteration
  that consumes nothing is rejected, as in ECMAScript.
\<close>

datatype re =
    Ch nat
  | Cls "nat \<Rightarrow> bool"
  | Eps
  | Eol
  | Seq re re
  | Alt re re
  | Star re

function ends :: "re \<Rightarrow> jsstring \<Rightarrow> jsstring list" where
  "ends (Ch c) s = (case s of [] \<Rightarrow> [] | x # xs \<Rightarrow> if x = c then [xs] else [])"
| "ends (Cls p) s = (case s of [] \<Rightarrow> [] | x # xs \<Rightarrow> if p x then [xs] else [])"
| "ends Eps s = [s]"
| "ends Eol s = (if s = [] then [s] else [])"
| "ends (Seq a b) s = concat (map (ends b) (ends a s))"
| "ends (Alt a b) s = ends a s @ ends b s"
| "ends (Star a) s =
     concat (map (ends (Star a)) (filter (\<lambda>s'. length s' < length s) (ends a s))) @ [s]"
  by pat_completeness auto
termination
  by (relation "measures [\<lambda>(r, s). size r, \<lambda>(r, s). length s]") auto

text \<open>The equation of the star is applied by hand in proofs: as a rewrite rule it would
  unfold without end.\<close>

declare ends.simps(7) [simp del]

text \<open>Derived forms: a literal, \<open>r{n}\<close>, \<open>r+\<close>, \<open>r?\<close>, and a literal under the \<open>i\<close> flag
  (only ASCII letters have a second case that is a different ASCII letter).\<close>

definition lit :: "string \<Rightarrow> re" where
  "lit s = foldr (\<lambda>c r. Seq (Ch (of_char c)) r) s Eps"

fun rep :: "nat \<Rightarrow> re \<Rightarrow> re" where
  "rep 0 r = Eps"
| "rep (Suc n) r = Seq r (rep n r)"

definition plus1 :: "re \<Rightarrow> re" where
  "plus1 r = Seq r (Star r)"

definition opt :: "re \<Rightarrow> re" where
  "opt r = Alt r Eps"

definition sameLetter :: "nat \<Rightarrow> nat \<Rightarrow> bool" where
  "sameLetter c x \<longleftrightarrow>
     x = c \<or> (97 \<le> c \<and> c \<le> 122 \<and> x + 32 = c) \<or> (65 \<le> c \<and> c \<le> 90 \<and> x = c + 32)"

definition lit_i :: "string \<Rightarrow> re" where
  "lit_i s = foldr (\<lambda>c r. Seq (Cls (sameLetter (of_char c))) r) s Eps"

definition isDigit :: "nat \<Rightarrow> bool" where
  "isDigit c \<longleftrightarrow> 48 \<le> c \<and> c \<le> 57"

definition isAlnum :: "nat \<Rightarrow> bool" where
  "isAlnum c \<longleftrightarrow> (97 \<le> c \<and> c \<le> 122) \<or> (65 \<le> c \<and> c \<le> 90) \<or> isDigit c"

text \<open>The dot matches every code unit but the four line terminators.\<close>

definition dot :: re where
  "dot = Cls (\<lambda>c. c \<noteq> 10 \<and> c \<noteq> 13 \<and> c \<noteq> 8232 \<and> c \<noteq> 8233)"

text \<open>
  Every capturing expression of the source has the shape \<open>P(C)\<close>: a prefix without groups
  that capture, then one capture group that ends the expression.  \<open>exec_at p c s\<close> is the
  first match of \<open>P(C)\<close> at the start of \<open>s\<close> in backtracking order, as the pair of the
  whole match and the captured text (\<open>m[0]\<close> and \<open>m[1]\<close>).  \<open>js_match\<close> is
  \<open>String.prototype.match\<close> for an expression without the \<open>g\<close> flag: the match at the
  leftmost position that has one.
\<close>

definition exec_at :: "re \<Rightarrow> re \<Rightarrow> jsstring \<Rightarrow> (jsstring \<times> jsstring) option" where
  "exec_at p c s =
     (case concat (map (\<lambda>s1. map (\<lambda>s2. (s1, s2)) (ends c s1)) (ends p s)) of
        [] \<Rightarrow> None
      | (s1, s2) # _ \<Rightarrow> Some (take (length s - length s2) s, take (length s1 - length s2) s1))"

fun js_match :: "re \<Rightarrow> re \<Rightarrow> jsstring \<Rightarrow> (jsstring \<times> jsstring) option" where
  "js_match p c [] = exec_at p c []"
| "js_match p c (x # xs) =
     (case exec_at p c (x # xs) of Some m \<Rightarrow> Some m | None \<Rightarrow> js_match p c xs)"

text \<open>\<^verbatim>\<open>/(BV[a-zA-Z0-9]{10})/\<close>\<close>

definition re_bv :: "re \<times> re" where
  "re_bv = (Eps, Seq (lit ''BV'') (rep 10 (Cls isAlnum)))"

text \<open>\<^verbatim>\<open>/(?:av)([0-9]+)/\<close>\<close>

definition re_av :: "re \<times> re" where
  "re_av = (lit ''av'', plus1 (Cls isDigit))"

text \<open>\<^verbatim>\<open>/https?:\/\/(?:www|m)\.bilibili\.com\/video\/(BV[a-zA-Z0-9]{10})/\<close>\<close>

definition re_bili_url :: "re \<times> re" where
  "re_bili_url =
     (Seq (lit ''http'') (Seq (opt (Ch 115)) (Seq (lit ''://'')
        (Seq (Alt (lit ''www'') (lit ''m'')) (lit ''.bilibili.com/video/'')))),
      Seq (lit ''BV'') (rep 10 (Cls isAlnum)))"

text \<open>\<^verbatim>\<open>/(?:youtube\.com\/(?:[^\/]+\/.+\/|(?:v|e(?:mbed)?)\/|.*[?&]v=)|youtu\.be\/)([^"&?\/\s]{11})/\<close>\<close>

definition ytRegex :: "re \<times> re" where
  "ytRegex =
     (Alt (Seq (lit ''youtube.com/'')
            (Alt (Seq (plus1 (Cls (\<lambda>c. c \<noteq> 47))) (Seq (Ch 47) (Seq (plus1 dot) (Ch 47))))
            (Alt (Seq (Alt (Ch 118) (Seq (Ch 101) (opt (lit ''mbed'')))) (Ch 47))
                 (Seq (Star dot) (Seq (Cls (\<lambda>c. c = 63 \<or> c = 38)) (lit ''v=''))))))
          (lit ''youtu.be/''),
      rep 11 (Cls (\<lambda>c. c \<noteq> 34 \<and> c \<noteq> 38 \<and> c \<noteq> 63 \<and> c \<noteq> 47 \<and> \<not> isWhiteSpace c)))"

text \<open>\<^verbatim>\<open>/\.(mp4|webm|ogg|mov)$/i\<close>.  The source only tests whether it matches, so the
  whole expression is the prefix and the capture is left empty.\<close>

definition re_direct :: "re \<times> re" where
  "re_direct =
     (Seq (Ch 46)
        (Seq (Alt (lit_i ''mp4'') (Alt (lit_i ''webm'') (Alt (lit_i ''ogg'') (lit_i ''mov'')))) Eol),
      Eps)"

definition match_re :: "re \<times> re \<Rightarrow> jsstring \<Rightarrow> (jsstring \<times> jsstring) option" where
  "match_re r s = js_match (fst r) (snd r) s"

section \<open>encodeURIComponent and decodeURIComponent\<close>

definition isUnreserved :: "nat \<Rightarrow> bool" where
  "isUnreserved c \<longleftrightarrow> isAlnum c \<or> c \<in> set (js ''-_.!~*'') \<or> c = 39 \<or> c = 40 \<or> c = 41"

definition hexDigit :: "nat \<Rightarrow> nat" where
  "hexDigit d = (if d < 10 then 48 + d else 55 + d)"

definition pct :: "nat list \<Rightarrow> jsstring" where
  "pct bytes = concat (map (\<lambda>b. [37, hexDigit (b div 16), hexDigit (b mod 16)]) bytes)"

definition utf8 :: "nat \<Rightarrow> nat list" where
  "utf8 cp =
     (if cp < 128 then [cp]
      else if cp < 2048 then [192 + cp div 64, 128 + cp mod 64]
      else if cp < 65536 then [224 + cp div 4096, 128 + (cp div 64) mod 64, 128 + cp mod 64]
      else [240 + cp div 262144, 128 + (cp div 4096) mod 64, 128 + (cp div 64) mod 64,
            128 + cp mod 64])"

text \<open>\<open>encodeURIComponent\<close> keeps the unreserved characters and writes the UTF-8 bytes of
  every other code point as \<open>%XX\<close>.  A surrogate that is not part of a pair raises
  \<open>URIError\<close>: the result \<open>None\<close>.\<close>

fun encodeURIComponent :: "jsstring \<Rightarrow> jsstring option" where
  "encodeURIComponent [] = Some []"
| "encodeURIComponent (c # cs) =
     (if isUnreserved c then map_option ((#) c) (encodeURIComponent cs)
      else if c < 55296 \<or> 57343 < c then map_option ((@) (pct (utf8 c))) (encodeURIComponent cs)
      else if c \<le> 56319 then
        (case cs of
           [] \<Rightarrow> None
         | d # ds \<Rightarrow>
             if 56320 \<le> d \<and> d \<le> 57343
             then map_option ((@) (pct (utf8 (65536 + (c - 55296) * 1024 + (d - 56320)))))
                    (encodeURIComponent ds)
             else None)
      else None)"

definition hexValue :: "nat \<Rightarrow> nat option" where
  "hexValue c =
     (if 48 \<le> c \<and> c \<le> 57 then Some (c - 48)
      else if 65 \<le> c \<and> c \<le> 70 then Some (c - 55)
      else if 97 \<le> c \<and> c \<le> 102 then Some (c - 87)
      else None)"

text \<open>The byte that two hexadecimal digits at the start of \<open>s\<close> denote.\<close>

definition hexByte :: "jsstring \<Rightarrow> nat option" where
  "hexByte s =
     (case s of
        h # l # _ \<Rightarrow>
          (case hexValue h of
             None \<Rightarrow> None
           | Some a \<Rightarrow> (case hexValue l of None \<Rightarrow> None | Some b \<Rightarrow> Some (16 * a + b)))
      | _ \<Rightarrow> None)"

text \<open>\<open>n\<close> continuation bytes, each written \<open>%XX\<close> with a value from 128 to 191.\<close>

fun contBytes :: "nat \<Rightarrow> jsstring \<Rightarrow> nat list option" where
  "contBytes 0 s = Some []"
| "contBytes (Suc n) s =
     (case s of
        [] \<Rightarrow> None
      | p # r \<Rightarrow>
          if p \<noteq> 37 then None
          else (case hexByte r of
                  None \<Rightarrow> None
                | Some b \<Rightarrow>
                    if 128 \<le> b \<and> b < 192
                    then map_option ((#) b) (contBytes n (drop 2 r))
                    else None))"

text \<open>The code point of a lead byte and its continuation bytes; \<open>None\<close> for an overlong
  form, a surrogate or a value above \<open>0x10FFFF\<close>.\<close>

definition utf8CodePoint :: "nat \<Rightarrow> nat list \<Rightarrow> nat option" where
  "utf8CodePoint b bs =
     (let n = length bs;
          cp = foldl (\<lambda>acc x. acc * 64 + (x - 128)) (b - (if n = 1 then 192 else if n = 2 then 224 else 240)) bs
      in if n = 1 \<and> 128 \<le> cp then Some cp
         else if n = 2 \<and> 2048 \<le> cp \<and> \<not> (55296 \<le> cp \<and> cp \<le> 57343) then Some cp
         else if n = 3 \<and> 65536 \<le> cp \<and> cp \<le> 1114111 then Some cp
         else None)"

definition utf16 :: "nat \<Rightarrow> jsstring" where
  "utf16 cp =
     (if cp < 65536 then [cp]
      else [55296 + (cp - 65536) div 1024, 56320 + (cp - 65536) mod 1024])"

text \<open>\<open>decodeURIComponent\<close> replaces every \<open>%XX\<close> sequence by the character whose UTF-8
  encoding the bytes are, and raises \<open>URIError\<close> (the result \<open>None\<close>) when a percent sign is
  not followed by two hexadecimal digits or the bytes are not valid UTF-8.\<close>

function decodeURIComponent :: "jsstring \<Rightarrow> jsstring option" where
  "decodeURIComponent [] = Some []"
| "decodeURIComponent (c # cs) =
     (if c \<noteq> 37 then map_option ((#) c) (decodeURIComponent cs)
      else
        (case hexByte cs of
           None \<Rightarrow> None
         | Some b \<Rightarrow>
             if b < 128 then map_option ((#) b) (decodeURIComponent (drop 2 cs))
             else
               let n = (if b < 192 then 1 else if b < 224 then 2 else if b < 240 then 3
                        else if b < 248 then 4 else 5 :: nat)
               in if n = 1 \<or> 4 < n then None
                  else
                    (case contBytes (n - 1) (drop 2 cs) of
                       None \<Rightarrow> None
                     | Some bs \<Rightarrow>
                         (case utf8CodePoint b bs of
                            None \<Rightarrow> None
                          | Some cp \<Rightarrow>
                              map_option ((@) (utf16 cp))
                                (decodeURIComponent (drop (2 + 3 * (n - 1)) cs))))))"
  by pat_completeness auto
termination
  by (relation "measure length") auto

section \<open>The result record\<close>

text \<open>The interfaces \<open>VideoSource\<close>, \<open>AISummary\<close> and \<open>ParsedVideoData\<close>; an optional
  field is an \<open>option\<close>.\<close>

record VideoSource =
  url :: jsstring
  format :: jsstring
  quality :: jsstring
  size :: "jsstring option"
  isDownloadable :: "bool option"

record AISummary =
  tags :: "jsstring list"
  summary :: jsstring
  sentiment :: jsstring

datatype platform = Youtube | Bilibili | Direct | Unknown

datatype playerType = Native | Iframe

record ParsedVideoData =
  id :: jsstring
  title :: jsstring
  platform :: platform
  playerType :: playerType
  thumbnailUrl :: "jsstring option"
  duration :: "jsstring option"
  sources :: "VideoSource list"
  description :: "jsstring option"
  aiSummary :: "AISummary option"

text \<open>What makes the promise reject: the \<open>Error\<close> that the last line throws, a
  \<open>TypeError\<close> from reading a property of \<open>undefined\<close> or \<open>null\<close>, and the \<open>URIError\<close> of
  \<open>decodeURIComponent\<close>.\<close>

datatype js_error = FormatNotSupported | TypeError | URIError

section \<open>The network\<close>

text \<open>
  A request either fails (the \<open>fetch\<close> rejects), or delivers a body that is not JSON or
  is the JSON \<open>null\<close>, or delivers a JSON value.  A JSON value is read through the fields
  that the source reads.  A field that is present has the type that the contract of the
  endpoint gives it: a string, or an integer below \<open>2^53\<close> in magnitude for \<open>code\<close> and
  \<open>duration\<close>.  A field is
  \<open>None\<close> when it is absent or \<open>null\<close>, and a value that is not an object reads as an
  object without fields.
\<close>

datatype 'a response = FetchFailed | Unparsable | Parsed 'a

text \<open>The proxy's answer to a short link: \<open>{status: {url}, contents}\<close>.\<close>

record short_link_json =
  status_url :: "jsstring option"
  contents :: "jsstring option"

text \<open>The metadata endpoint's answer \<open>{code, data: {title, pic, desc, duration}}\<close>;
  \<open>meta_data = None\<close> when \<open>data\<close> is absent or \<open>null\<close>.\<close>

record meta_fields =
  meta_title :: "jsstring option"
  meta_pic :: "jsstring option"
  meta_desc :: "jsstring option"
  meta_duration :: "int option"

record meta_json =
  meta_code :: "int option"
  meta_data :: "meta_fields option"

text \<open>The parser service's answer \<open>{code, url}\<close>.\<close>

record stream_json =
  stream_code :: "int option"
  stream_url :: "jsstring option"

text \<open>The environment of one call: what \<open>Date.now()\<close> returns at each of the three
  places that read it, and what each endpoint answers to a request URL.\<close>

record env =
  now_resolve :: int
  now_meta :: int
  now_stream :: int
  fetch_resolve :: "jsstring \<Rightarrow> short_link_json response"
  fetch_meta :: "jsstring \<Rightarrow> meta_json response"
  fetch_stream :: "jsstring \<Rightarrow> stream_json response"

definition PROXY_RAW :: jsstring where
  "PROXY_RAW = js ''https://api.allorigins.win/raw?url=''"

definition PROXY_JSON :: jsstring where
  "PROXY_JSON = js ''https://api.allorigins.win/get?url=''"

definition PARSER_API :: jsstring where
  "PARSER_API = js ''https://api.injahow.cn/bparse/''"

text \<open>\<open>x || d\<close> on an optional string: \<open>undefined\<close> and the empty string are falsy.\<close>

definition orElse :: "jsstring option \<Rightarrow> jsstring \<Rightarrow> jsstring" where
  "orElse x d = (case x of None \<Rightarrow> d | Some s \<Rightarrow> if s = [] then d else s)"

section \<open>parseVideoInput\<close>

subsection \<open>Step 1: b23.tv short links\<close>

text \<open>The request of step 1: the proxy in JSON mode, the encoded link, and the time.\<close>

definition resolveUrl :: "jsstring \<Rightarrow> int \<Rightarrow> jsstring option" where
  "resolveUrl u now =
     map_option (\<lambda>e. PROXY_JSON @ e @ js ''&t='' @ number_toString now) (encodeURIComponent u)"

text \<open>The first version of the source (lines 16 to 31).  The result is the pair of
  \<open>url\<close> and \<open>bvid\<close> after the step; every failure inside the \<open>try\<close> leaves both as
  they were.\<close>

definition resolveShortLink :: "env \<Rightarrow> jsstring \<Rightarrow> jsstring \<times> jsstring" where
  "resolveShortLink e u =
     (if js_includes u (js ''b23.tv'') then
        (case resolveUrl u (now_resolve e) of
           None \<Rightarrow> (u, [])
         | Some req \<Rightarrow>
             (case fetch_resolve e req of
                Parsed d \<Rightarrow>
                  if orElse (status_url d) [] \<noteq> [] then (orElse (status_url d) [], [])
                  else if orElse (contents d) [] \<noteq> [] then
                    (case match_re re_bv (orElse (contents d) []) of
                       Some m \<Rightarrow> (u, snd m)
                     | None \<Rightarrow> (u, []))
                  else (u, [])
              | _ \<Rightarrow> (u, [])))
      else (u, []))"

text \<open>The second version (lines 202 to 229): a redirect target that still contains
  \<open>b23.tv\<close> is not taken, and the page contents are searched for a video URL first.\<close>

definition resolveShortLink2 :: "env \<Rightarrow> jsstring \<Rightarrow> jsstring \<times> jsstring" where
  "resolveShortLink2 e u =
     (if js_includes u (js ''b23.tv'') then
        (case resolveUrl u (now_resolve e) of
           None \<Rightarrow> (u, [])
         | Some req \<Rightarrow>
             (case fetch_resolve e req of
                Parsed d \<Rightarrow>
                  if orElse (status_url d) [] \<noteq> []
                     \<and> \<not> js_includes (orElse (status_url d) []) (js ''b23.tv'')
                  then (orElse (status_url d) [], [])
                  else if orElse (contents d) [] \<noteq> [] then
                    (case match_re re_bili_url (orElse (contents d) []) of
                       Some m \<Rightarrow> (fst m, snd m)
                     | None \<Rightarrow>
                         (case match_re re_bv (orElse (contents d) []) of
                            Some m \<Rightarrow> (u, snd m)
                          | None \<Rightarrow> (u, [])))
                  else (u, [])
              | _ \<Rightarrow> (u, [])))
      else (u, []))"

subsection \<open>Step 2: the identifiers\<close>

text \<open>Lines 34 to 38: the pair of \<open>bvid\<close> and \<open>avid\<close> after the step, from the \<open>url\<close>
  and the \<open>bvid\<close> of step 1.\<close>

definition extractIds :: "jsstring \<Rightarrow> jsstring \<Rightarrow> jsstring \<times> jsstring" where
  "extractIds u bvid =
     (let bvMatch = match_re re_bv u;
          avMatch = match_re re_av u
      in case bvMatch of
           Some m \<Rightarrow> (snd m, [])
         | None \<Rightarrow> (case avMatch of Some m \<Rightarrow> (bvid, snd m) | None \<Rightarrow> (bvid, [])))"

text \<open>Lines 232 to 238 of the second version: the step is skipped when step 1 found a
  \<open>bvid\<close>.\<close>

definition extractIds2 :: "jsstring \<Rightarrow> jsstring \<Rightarrow> jsstring \<times> jsstring" where
  "extractIds2 u bvid = (if bvid = [] then extractIds u bvid else (bvid, []))"

subsection \<open>The Bilibili pipeline\<close>

definition emptyMeta :: meta_fields where
  "emptyMeta = \<lparr>meta_title = None, meta_pic = None, meta_desc = None, meta_duration = None\<rparr>"

definition metaUrl :: "jsstring \<Rightarrow> jsstring \<Rightarrow> jsstring" where
  "metaUrl bvid avid =
     js ''https://api.bilibili.com/x/web-interface/view?''
       @ (if bvid \<noteq> [] then js ''bvid='' @ bvid else js ''aid='' @ avid)"

definition metaRequest :: "jsstring \<Rightarrow> jsstring \<Rightarrow> int \<Rightarrow> jsstring option" where
  "metaRequest bvid avid now =
     map_option (\<lambda>e. PROXY_RAW @ e @ js ''&t='' @ number_toString now)
       (encodeURIComponent (metaUrl bvid avid))"

text \<open>Lines 42 to 53: the value of \<open>metaData\<close> after the \<open>try\<close>.  It starts as the empty
  object and becomes \<open>json.data\<close> when the answer has \<open>code\<close> 0; \<open>None\<close> is the value
  \<open>undefined\<close> (or \<open>null\<close>) that \<open>json.data\<close> has when the answer carries no \<open>data\<close>.\<close>

definition fetchMetadata :: "env \<Rightarrow> jsstring \<Rightarrow> jsstring \<Rightarrow> meta_fields option" where
  "fetchMetadata e bvid avid =
     (case metaRequest bvid avid (now_meta e) of
        None \<Rightarrow> Some emptyMeta
      | Some req \<Rightarrow>
          (case fetch_meta e req of
             Parsed j \<Rightarrow> if meta_code j = Some 0 then meta_data j else Some emptyMeta
           | _ \<Rightarrow> Some emptyMeta))"

text \<open>Lines 61 to 65: the target \<open>parseUrl\<close> and the request \<open>proxyUrl\<close>.\<close>

definition parseUrl :: "jsstring \<Rightarrow> jsstring \<Rightarrow> jsstring" where
  "parseUrl bvid avid =
     PARSER_API @ js ''?'' @ (if bvid \<noteq> [] then js ''bv='' @ bvid else js ''av='' @ avid)
       @ js ''&p=1&q=80&format=mp4&otype=json''"

definition proxyUrl :: "jsstring \<Rightarrow> jsstring \<Rightarrow> int \<Rightarrow> jsstring option" where
  "proxyUrl bvid avid now =
     map_option (\<lambda>e. PROXY_RAW @ e @ js ''&t='' @ number_toString now)
       (encodeURIComponent (parseUrl bvid avid))"

text \<open>The answer to the stream request; an exception before the \<open>fetch\<close> is caught by the
  same handler as a failed \<open>fetch\<close>.\<close>

definition streamResponse :: "env \<Rightarrow> jsstring \<Rightarrow> jsstring \<Rightarrow> stream_json response" where
  "streamResponse e bvid avid =
     (case proxyUrl bvid avid (now_stream e) of
        None \<Rightarrow> FetchFailed
      | Some req \<Rightarrow> fetch_stream e req)"

text \<open>Lines 57 to 86: the pair of \<open>directUrl\<close> and \<open>parseError\<close> after the \<open>try\<close>.\<close>

definition resolveStream :: "env \<Rightarrow> jsstring \<Rightarrow> jsstring \<Rightarrow> jsstring \<times> bool" where
  "resolveStream e bvid avid =
     (case streamResponse e bvid avid of
        FetchFailed \<Rightarrow> ([], True)
      | Unparsable \<Rightarrow> ([], True)
      | Parsed j \<Rightarrow>
          if stream_code j = Some 0 \<and> orElse (stream_url j) [] \<noteq> []
          then (orElse (stream_url j) [], False)
          else ([], True))"

text \<open>The literals \<open>Bilibili \<close>, two Chinese characters, \<open> (\<close>; the two characters alone
  after \<open>YouTube \<close>; and the five characters that name a file without a name.\<close>

definition bilibiliTitle :: "jsstring \<Rightarrow> jsstring" where
  "bilibiliTitle ident = js ''Bilibili '' @ [35270, 39057] @ js '' ('' @ ident @ js '')''"

definition youtubeTitle :: jsstring where
  "youtubeTitle = js ''YouTube '' @ [35270, 39057]"

definition unnamedVideo :: jsstring where
  "unnamedVideo = [26410, 21629, 21517, 35270, 39057]"

text \<open>Lines 88 to 142: the result of the Bilibili pipeline from \<open>metaData\<close>,
  \<open>directUrl\<close> and the identifiers.  Reading \<open>metaData.title\<close> raises \<open>TypeError\<close> when
  \<open>metaData\<close> is \<open>undefined\<close>; the statement is outside every \<open>try\<close>.\<close>

definition bilibiliResult ::
  "meta_fields option \<Rightarrow> jsstring \<Rightarrow> jsstring \<Rightarrow> jsstring \<Rightarrow> js_error + ParsedVideoData" where
  "bilibiliResult metaData directUrl bvid avid =
     (case metaData of
        None \<Rightarrow> Inl TypeError
      | Some md \<Rightarrow>
          let ident = (if bvid \<noteq> [] then bvid else avid);
              title = orElse (meta_title md) (bilibiliTitle ident);
              cover = orElse (meta_pic md) [];
              desc = orElse (meta_desc md) [];
              duration = (case meta_duration md of
                            None \<Rightarrow> []
                          | Some d \<Rightarrow> if d \<noteq> 0 then formatDuration d else [])
          in if directUrl \<noteq> [] then
               Inr \<lparr>id = ident, title = title, platform = Bilibili, playerType = Native,
                    thumbnailUrl = Some cover, duration = Some duration,
                    sources = [\<lparr>url = directUrl, format = js ''MP4 (Direct)'',
                                quality = js ''High (q=80)'', size = Some (js ''Unknown''),
                                isDownloadable = Some True\<rparr>],
                    description = Some desc, aiSummary = None\<rparr>
             else
               Inr \<lparr>id = ident, title = title, platform = Bilibili, playerType = Iframe,
                    thumbnailUrl = Some cover, duration = Some duration,
                    sources = [\<lparr>url = js ''//player.bilibili.com/player.html?''
                                       @ (if bvid \<noteq> [] then js ''bvid='' @ bvid
                                          else js ''aid='' @ avid)
                                       @ js ''&high_quality=1&danmaku=0'',
                                format = js ''Embed'', quality = js ''Auto'',
                                size = Some (js ''N/A''), isDownloadable = Some False\<rparr>],
                    description = Some desc, aiSummary = None\<rparr>)"

subsection \<open>YouTube, direct files and the whole function\<close>

text \<open>Lines 40 to 179, from the \<open>url\<close> and the identifiers that steps 1 and 2 leave.
  Lines 240 to 371 of the second version are the same statements.\<close>

definition parseResolved ::
  "env \<Rightarrow> jsstring \<Rightarrow> jsstring \<Rightarrow> jsstring \<Rightarrow> js_error + ParsedVideoData" where
  "parseResolved e u bvid avid =
     (if bvid \<noteq> [] \<or> avid \<noteq> [] then
        bilibiliResult (fetchMetadata e bvid avid) (fst (resolveStream e bvid avid)) bvid avid
      else
        (case match_re ytRegex u of
           Some ytMatch \<Rightarrow>
             let videoId = snd ytMatch
             in Inr \<lparr>id = videoId, title = youtubeTitle, platform = Youtube,
                     playerType = Iframe,
                     thumbnailUrl =
                       Some (js ''https://img.youtube.com/vi/'' @ videoId @ js ''/maxresdefault.jpg''),
                     duration = None,
                     sources =
                       [\<lparr>url = js ''https://www.youtube.com/embed/'' @ videoId,
                         format = js ''Embed'', quality = js ''Auto'', size = Some (js ''N/A''),
                         isDownloadable = Some False\<rparr>,
                        \<lparr>url = js ''https://youtu.be/'' @ videoId, format = js ''Source'',
                         quality = js ''Original'', size = Some (js ''External''),
                         isDownloadable = Some True\<rparr>],
                     description = None, aiSummary = None\<rparr>
         | None \<Rightarrow>
             (case match_re re_direct u of
                Some isDirect \<Rightarrow>
                  let fileName = orElse (Some (lastSegment u)) unnamedVideo
                  in (case decodeURIComponent fileName of
                        None \<Rightarrow> Inl URIError
                      | Some t \<Rightarrow>
                          Inr \<lparr>id = js ''direct_file'', title = t, platform = Direct,
                               playerType = Native, thumbnailUrl = None, duration = None,
                               sources = [\<lparr>url = u, format = js ''Original'',
                                           quality = js ''Source'',
                                           size = Some (js ''Unknown''),
                                           isDownloadable = Some True\<rparr>],
                               description = None, aiSummary = None\<rparr>)
              | None \<Rightarrow> Inl FormatNotSupported)))"

text \<open>The first version of \<open>parseVideoInput\<close> (lines 10 to 180 of
  \<open>services/parserService.ts\<close>).  \<open>Inl\<close> is a rejected promise, \<open>Inr\<close> a resolved one.\<close>

definition parseVideoInput :: "env \<Rightarrow> jsstring \<Rightarrow> js_error + ParsedVideoData" where
  "parseVideoInput e input =
     (let step1 = resolveShortLink e (trim input);
          ids = extractIds (fst step1) (snd step1)
      in parseResolved e (fst step1) (fst ids) (snd ids))"

text \<open>The second version (lines 196 to 372).\<close>

definition parseVideoInput2 :: "env \<Rightarrow> jsstring \<Rightarrow> js_error + ParsedVideoData" where
  "parseVideoInput2 e input =
     (let step1 = resolveShortLink2 e (trim input);
          ids = extractIds2 (fst step1) (snd step1)
      in parseResolved e (fst step1) (fst ids) (snd ids))"

section \<open>The player's buffering download\<close>

text \<open>
  The state of the component \<open>VideoPlayer\<close> that the first effect of
  \<open>components/VideoPlayer.tsx\<close> reads and writes, and the object URLs of the browser: those
  that \<open>URL.createObjectURL\<close> has made and \<open>URL.revokeObjectURL\<close> has not released.  An
  object URL is identified by a number; \<open>nextUrl\<close> is the next one to be made.  A state
  update takes effect when it is made.  Progress is an exact fraction.
\<close>

record player =
  isPlaying :: bool
  currentTime :: rat
  downloadProgress :: rat
  isDownloading :: bool
  blobUrl :: "nat option"
  useDirectStream :: bool
  capturedImage :: "jsstring option"
  objectUrls :: "nat list"
  nextUrl :: nat

text \<open>The initial values of the \<open>useState\<close> calls, in a browser without object URLs.\<close>

definition initialPlayer :: player where
  "initialPlayer =
     \<lparr>isPlaying = False, currentTime = 0, downloadProgress = 0, isDownloading = False,
      blobUrl = None, useDirectStream = False, capturedImage = None, objectUrls = [],
      nextUrl = 0\<rparr>"

text \<open>
  One run of the effect owns one transfer: the variables \<open>isAborted\<close>, \<open>total\<close>, \<open>loaded\<close>
  and \<open>chunks\<close> (the lengths of the chunks) of its closure, and the \<open>await\<close> at which
  \<open>fetchVideo\<close> is suspended.
\<close>

datatype stage = AwaitingFetch | AwaitingRead | Settled

record transfer =
  isAborted :: bool
  stage :: stage
  total :: int
  loaded :: nat
  chunks :: "nat list"

text \<open>
  What the runtime delivers to a suspended \<open>fetchVideo\<close>: the response of \<open>fetch\<close> (is it
  \<open>ok\<close>, has it a body, the \<open>content-length\<close> header as \<open>parseInt\<close> reads it, \<open>None\<close> when
  the header is absent or not a number), a rejection of \<open>fetch\<close>, a chunk of \<open>value.length\<close>
  bytes (\<open>None\<close> for a result without a value), the end of the body, or a rejection of
  \<open>read\<close>.  An error is an \<open>AbortError\<close> or any other error.
\<close>

datatype fetch_error = AbortError | OtherError

datatype delivery =
    FetchResponse bool bool "int option"
  | FetchReject fetch_error
  | ReadResult "nat option"
  | ReadDone
  | ReadReject fetch_error

text \<open>The \<open>catch\<close> block, lines 93 to 104.\<close>

definition caught :: "fetch_error \<Rightarrow> transfer \<times> player \<Rightarrow> transfer \<times> player" where
  "caught err s =
     (let t = fst s; p = snd s
      in (t\<lparr>stage := Settled\<rparr>,
          if err = AbortError then p
          else if \<not> isAborted t then p\<lparr>useDirectStream := True, isDownloading := False\<rparr>
          else p))"

text \<open>Lines 85 to 92: the blob and its object URL are made, and the state is written
  unless the transfer was aborted.\<close>

definition completed :: "transfer \<times> player \<Rightarrow> transfer \<times> player" where
  "completed s =
     (let t = fst s; p = snd s;
          objectUrl = nextUrl p;
          p1 = p\<lparr>objectUrls := objectUrls p @ [objectUrl], nextUrl := Suc objectUrl\<rparr>
      in (t\<lparr>stage := Settled\<rparr>,
          if \<not> isAborted t
          then p1\<lparr>blobUrl := Some objectUrl, downloadProgress := 100, isDownloading := False\<rparr>
          else p1))"

text \<open>Lines 76 to 82: one chunk.\<close>

definition chunk :: "nat option \<Rightarrow> transfer \<times> player \<Rightarrow> transfer \<times> player" where
  "chunk v s =
     (let t = fst s; p = snd s
      in case v of
           None \<Rightarrow> (t, p)
         | Some n \<Rightarrow>
             let t1 = t\<lparr>chunks := chunks t @ [n], loaded := loaded t + n\<rparr>
             in (t1,
                 if 0 < total t1
                 then p\<lparr>downloadProgress :=
                          min (of_nat (loaded t1) / of_int (total t1) * 100) 99\<rparr>
                 else p))"

text \<open>\<open>fetchVideo\<close> from one \<open>await\<close> to the next (lines 57 to 104).  A delivery that the
  current \<open>await\<close> does not wait for changes nothing.\<close>

fun fetchVideo_step :: "delivery \<Rightarrow> transfer \<times> player \<Rightarrow> transfer \<times> player" where
  "fetchVideo_step d (t, p) =
     (case stage t of
        AwaitingFetch \<Rightarrow>
          (case d of
             FetchResponse ok hasBody contentLength \<Rightarrow>
               if \<not> ok then caught OtherError (t, p)
               else if \<not> hasBody then caught OtherError (t, p)
               else (t\<lparr>stage := AwaitingRead,
                       total := (case contentLength of None \<Rightarrow> 0 | Some n \<Rightarrow> n),
                       loaded := 0, chunks := []\<rparr>, p)
           | FetchReject err \<Rightarrow> caught err (t, p)
           | _ \<Rightarrow> (t, p))
      | AwaitingRead \<Rightarrow>
          (case d of
             ReadResult v \<Rightarrow> chunk v (t, p)
           | ReadDone \<Rightarrow> completed (t, p)
           | ReadReject err \<Rightarrow> caught err (t, p)
           | _ \<Rightarrow> (t, p))
      | Settled \<Rightarrow> (t, p))"

fun fetchVideo :: "delivery list \<Rightarrow> transfer \<times> player \<Rightarrow> transfer \<times> player" where
  "fetchVideo [] s = s"
| "fetchVideo (d # ds) s = fetchVideo ds (fetchVideo_step d s)"

text \<open>The progress that the component shows after each delivery.\<close>

fun progressTrace :: "delivery list \<Rightarrow> transfer \<times> player \<Rightarrow> rat list" where
  "progressTrace [] s = []"
| "progressTrace (d # ds) s =
     downloadProgress (snd (fetchVideo_step d s)) # progressTrace ds (fetchVideo_step d s)"

text \<open>The closure of a new effect run, suspended at \<open>await fetch\<close>.\<close>

definition freshTransfer :: transfer where
  "freshTransfer =
     \<lparr>isAborted = False, stage = AwaitingFetch, total = 0, loaded = 0, chunks = []\<rparr>"

text \<open>The body of the effect (lines 32 to 107) for the current \<open>playerType\<close>: the state is
  reset, a held object URL is revoked, and for a native player a transfer starts, which
  runs up to its first \<open>await\<close>.  An iframe player starts none.\<close>

definition effect :: "playerType \<Rightarrow> player \<Rightarrow> transfer option \<times> player" where
  "effect pt p =
     (let p1 = p\<lparr>isPlaying := False, currentTime := 0, downloadProgress := 0,
                 capturedImage := None, useDirectStream := False\<rparr>;
          p2 = (case blobUrl p of
                  None \<Rightarrow> p1
                | Some b \<Rightarrow> p1\<lparr>objectUrls := removeAll b (objectUrls p1), blobUrl := None\<rparr>)
      in if pt = Iframe then (None, p2)
         else (Some freshTransfer, p2\<lparr>isDownloading := True\<rparr>))"

text \<open>The cleanup that the effect returns (lines 109 to 112).  \<open>controller.abort()\<close> acts
  on what the runtime delivers next, not on the state.\<close>

definition cleanup :: "transfer \<Rightarrow> transfer" where
  "cleanup t = t\<lparr>isAborted := True\<rparr>"

text \<open>The component with the transfer of its last effect run.  A change of \<open>url\<close> or
  \<open>playerType\<close> runs the cleanup and then the effect; unmounting runs the cleanup.\<close>

definition mount :: "playerType \<Rightarrow> transfer option \<times> player" where
  "mount pt = effect pt initialPlayer"

definition propsChange :: "playerType \<Rightarrow> transfer option \<times> player \<Rightarrow> transfer option \<times> player" where
  "propsChange pt c = effect pt (snd c)"

definition unmount :: "transfer option \<times> player \<Rightarrow> transfer option \<times> player" where
  "unmount c = (map_option cleanup (fst c), snd c)"

definition deliver :: "delivery list \<Rightarrow> transfer option \<times> player \<Rightarrow> transfer option \<times> player" where
  "deliver ds c =
     (case fst c of
        None \<Rightarrow> c
      | Some t \<Rightarrow> (Some (fst (fetchVideo ds (t, snd c))), snd (fetchVideo ds (t, snd c))))"

text \<open>\<open>skipDownload\<close>, lines 158 to 161.\<close>

definition skipDownload :: "player \<Rightarrow> player" where
  "skipDownload p = p\<lparr>useDirectStream := True, isDownloading := False\<rparr>"

text \<open>A delivery that makes \<open>fetchVideo\<close> throw something other than an \<open>AbortError\<close>
  at the given \<open>await\<close>: a response that is not \<open>ok\<close> or has no body, or a rejection with
  another error.\<close>

definition nonAbortFailure :: "stage \<Rightarrow> delivery \<Rightarrow> bool" where
  "nonAbortFailure st d \<longleftrightarrow>
     (st = AwaitingFetch
        \<and> (\<exists>cl. d = FetchResponse False True cl \<or> d = FetchResponse False False cl
                \<or> d = FetchResponse True False cl))
     \<or> (st = AwaitingFetch \<and> d = FetchReject OtherError)
     \<or> (st = AwaitingRead \<and> d = ReadReject OtherError)"

text \<open>What the runtime delivers to a transfer once \<open>controller.abort()\<close> has been called:
  the pending \<open>fetch\<close> or \<open>read\<close> rejects with an \<open>AbortError\<close>.\<close>

definition abortRejection :: "delivery \<Rightarrow> bool" where
  "abortRejection d \<longleftrightarrow> d = FetchReject AbortError \<or> d = ReadReject AbortError"

text \<open>The states of a live transfer that reads the body: the progress shown is between 0
  and 99 and, when the length is known, not above the fraction read so far.\<close>

definition reading :: "transfer \<times> player \<Rightarrow> bool" where
  "reading s \<longleftrightarrow>
     stage (fst s) = AwaitingRead \<and> \<not> isAborted (fst s)
     \<and> 0 \<le> downloadProgress (snd s) \<and> downloadProgress (snd s) \<le> 99
     \<and> (0 < total (fst s) \<longrightarrow>
          downloadProgress (snd s) \<le> of_nat (loaded (fst s)) / of_int (total (fst s)) * 100)"

text \<open>A body of ten bytes that arrives in two chunks.\<close>

definition sampleDownload :: "delivery list" where
  "sampleDownload =
     [FetchResponse True True (Some 10), ReadResult (Some 4), ReadResult (Some 6), ReadDone]"

section \<open>Query parameters\<close>

text \<open>\<open>s.split(c)\<close> for a separator of one code unit, and the parameters of a URL as it is
  written: the text after the first question mark, cut at every ampersand, each piece cut
  at its first equals sign.  Nothing is decoded.\<close>

fun splitOn :: "nat \<Rightarrow> jsstring \<Rightarrow> jsstring list" where
  "splitOn c [] = [[]]"
| "splitOn c (x # xs) =
     (if x = c then [] # splitOn c xs
      else (case splitOn c xs of [] \<Rightarrow> [[x]] | y # ys \<Rightarrow> (x # y) # ys))"

definition queryParams :: "jsstring \<Rightarrow> (jsstring \<times> jsstring) list" where
  "queryParams u =
     map (\<lambda>kv. (takeWhile (\<lambda>c. c \<noteq> 61) kv, drop 1 (dropWhile (\<lambda>c. c \<noteq> 61) kv)))
       (splitOn 38 (drop 1 (dropWhile (\<lambda>c. c \<noteq> 63) u)))"

section \<open>Sample environments\<close>

text \<open>No endpoint answers.\<close>

definition offline :: env where
  "offline =
     \<lparr>now_resolve = 1700000000000, now_meta = 1700000000001, now_stream = 1700000000002,
      fetch_resolve = (\<lambda>_. FetchFailed), fetch_meta = (\<lambda>_. FetchFailed),
      fetch_stream = (\<lambda>_. FetchFailed)\<rparr>"

text \<open>The metadata endpoint answers \<open>{"code": 0}\<close>, without \<open>data\<close>; the parser service
  answers \<open>{"code": 0, "url": "https://x/y.mp4"}\<close>.\<close>

definition metaWithoutData :: env where
  "metaWithoutData =
     \<lparr>now_resolve = 1700000000000, now_meta = 1700000000001, now_stream = 1700000000002,
      fetch_resolve = (\<lambda>_. FetchFailed),
      fetch_meta = (\<lambda>_. Parsed \<lparr>meta_code = Some 0, meta_data = None\<rparr>),
      fetch_stream =
        (\<lambda>_. Parsed \<lparr>stream_code = Some 0, stream_url = Some (js ''https://x/y.mp4'')\<rparr>)\<rparr>"

text \<open>Both endpoints answer as their contract says.\<close>

definition streamOk :: env where
  "streamOk =
     \<lparr>now_resolve = 1700000000000, now_meta = 1700000000001, now_stream = 1700000000002,
      fetch_resolve = (\<lambda>_. FetchFailed),
      fetch_meta =
        (\<lambda>_. Parsed \<lparr>meta_code = Some 0,
                      meta_data = Some \<lparr>meta_title = Some (js ''Demo''), meta_pic = None,
                                        meta_desc = None, meta_duration = Some 125\<rparr>\<rparr>),
      fetch_stream =
        (\<lambda>_. Parsed \<lparr>stream_code = Some 0, stream_url = Some (js ''https://x/y.mp4'')\<rparr>)\<rparr>"

section \<open>Properties of formatDuration\<close>

lemma str_nat_digit: "n < 10 \<Longrightarrow> str_nat n = [48 + n]"
  by (simp add: str_nat.simps)

lemma str_nat_two_digits:
  "10 \<le> n \<Longrightarrow> n < 100 \<Longrightarrow> str_nat n = [48 + n div 10, 48 + n mod 10]"
  by (subst str_nat.simps) (simp add: str_nat_digit)

lemma js_rem_nonneg: "0 \<le> a \<Longrightarrow> js_rem a 60 = a mod 60"
  by (cases "a = 0") (simp_all add: js_rem_def)

lemma seconds_field:
  fixes k :: nat
  assumes "k < 60"
  shows "(if int k < 10 then js ''0'' else js '''') @ number_toString (int k)
         = [48 + k div 10, 48 + k mod 10]"
proof (cases "k < 10")
  case True
  then show ?thesis by (simp add: number_toString_def js_def str_nat_digit)
next
  case False
  with assms show ?thesis
    by (simp add: number_toString_def js_def str_nat_two_digits)
qed

text \<open>
  Claim C8.  For a whole number of seconds \<open>n\<close> from 0 to below \<open>2^53\<close> (the range in
  which the arithmetic of the source is exact), \<open>formatDuration\<close> yields the decimal numeral
  of \<open>n div 60\<close> (the minutes, unpadded, with no hour field however many they are), a
  colon, and exactly two decimal digits for \<open>n mod 60\<close>.  In particular 125 gives \<open>2:05\<close>,
  59 gives \<open>0:59\<close> and 3605 gives \<open>60:05\<close>.
\<close>

theorem formatDuration_minutes_colon_seconds:
  assumes "n < 2 ^ 53"
  shows "formatDuration (int n) =
           number_toString (int (n div 60)) @ [58]
             @ [48 + (n mod 60) div 10, 48 + (n mod 60) mod 10]
       \<and> formatDuration 125 = js ''2:05''
       \<and> formatDuration 59 = js ''0:59''
       \<and> formatDuration 3605 = js ''60:05''"
proof -
  have gen: "formatDuration (int k) =
     number_toString (int (k div 60)) @ [58] @ [48 + (k mod 60) div 10, 48 + (k mod 60) mod 10]"
    for k :: nat
  proof -
    have r: "js_rem (int k) 60 = int (k mod 60)"
      by (simp add: js_rem_nonneg zmod_int)
    have d: "int k div 60 = int (k div 60)"
      by (simp add: zdiv_int)
    have c: "js '':'' = [58]"
      by (simp add: js_def)
    show ?thesis
      unfolding formatDuration_def Let_def r d c
      using seconds_field [of "k mod 60"] by simp
  qed
  have e1: "formatDuration 125 = js ''2:05''"
    using gen [of 125] by (simp add: number_toString_def str_nat_digit js_def)
  have e2: "formatDuration 59 = js ''0:59''"
    using gen [of 59] by (simp add: number_toString_def str_nat_digit js_def)
  have e3: "formatDuration 3605 = js ''60:05''"
    using gen [of 3605] by (simp add: number_toString_def str_nat_two_digits js_def)
  from gen [of n] e1 e2 e3 show ?thesis by simp
qed

theorem formatDuration_minutes_colon_seconds_witness:
  "(7384 :: nat) < 2 ^ 53
   \<and> formatDuration (int 7384) = js ''123:04''
   \<and> number_toString (int (7384 div 60)) = js ''123''
   \<and> formatDuration 125 = js ''2:05''
   \<and> formatDuration 59 = js ''0:59''
   \<and> formatDuration 3605 = js ''60:05''"
proof -
  have h: "(7384 :: nat) < 2 ^ 53" by simp
  have m: "number_toString (int (7384 div 60)) = js ''123''" by code_simp
  have l: "js ''123'' @ [58] @ [48 + (7384 mod 60) div 10, 48 + (7384 mod 60) mod 10]
           = js ''123:04''"
    by code_simp
  from formatDuration_minutes_colon_seconds [OF h] m l show ?thesis by simp
qed

section \<open>Properties of parseVideoInput\<close>

subsection \<open>Substrings and trimming\<close>

lemma startsWith_iff: "startsWith s t \<longleftrightarrow> (\<exists>b. s = t @ b)"
  by (induction s t rule: startsWith.induct) auto

lemma js_includes_iff: "js_includes s t \<longleftrightarrow> (\<exists>a b. s = a @ t @ b)"
proof (induction s)
  case Nil
  then show ?case by auto
next
  case (Cons c cs)
  show ?case
  proof
    assume "js_includes (c # cs) t"
    then consider "startsWith (c # cs) t" | "js_includes cs t" by auto
    then show "\<exists>a b. c # cs = a @ t @ b"
    proof cases
      case 1
      then obtain b where "c # cs = t @ b" by (auto simp: startsWith_iff)
      then have "c # cs = [] @ t @ b" by simp
      then show ?thesis by blast
    next
      case 2
      with Cons.IH obtain a b where "cs = a @ t @ b" by blast
      then have "c # cs = (c # a) @ t @ b" by simp
      then show ?thesis by blast
    qed
  next
    assume "\<exists>a b. c # cs = a @ t @ b"
    then obtain a b where ab: "c # cs = a @ t @ b" by blast
    show "js_includes (c # cs) t"
    proof (cases a)
      case Nil
      with ab have "startsWith (c # cs) t" by (auto simp: startsWith_iff)
      then show ?thesis by simp
    next
      case (Cons x a')
      with ab have "cs = a' @ t @ b" by simp
      with Cons.IH have "js_includes cs t" by blast
      then show ?thesis by simp
    qed
  qed
qed

lemma rev_dropWhile_rev:
  "x = rev (dropWhile P (rev x)) @ rev (takeWhile P (rev x))"
proof -
  have "rev (rev x) = rev (takeWhile P (rev x) @ dropWhile P (rev x))"
    by (simp only: takeWhile_dropWhile_id)
  then show ?thesis by (simp only: rev_rev_ident rev_append)
qed

lemma trim_inside: "\<exists>a b. s = a @ trim s @ b"
proof -
  let ?d = "dropWhile isWhiteSpace s"
  have 1: "s = takeWhile isWhiteSpace s @ ?d" by simp
  have 2: "?d = trim s @ rev (takeWhile isWhiteSpace (rev ?d))"
    unfolding trim_def by (rule rev_dropWhile_rev)
  from 1 2 have "s = takeWhile isWhiteSpace s @ trim s @ rev (takeWhile isWhiteSpace (rev ?d))"
    by simp
  then show ?thesis by blast
qed

lemma js_includes_trim: "js_includes (trim s) t \<Longrightarrow> js_includes s t"
proof -
  assume "js_includes (trim s) t"
  then obtain a b where ab: "trim s = a @ t @ b" by (auto simp: js_includes_iff)
  obtain c d where "s = c @ trim s @ d" using trim_inside by blast
  with ab have "s = (c @ a) @ t @ (b @ d)" by simp
  then show ?thesis unfolding js_includes_iff by blast
qed

subsection \<open>The sources of a result\<close>

lemma parseResolved_sources:
  "parseResolved e u b a = Inr r \<Longrightarrow>
     sources r \<noteq> [] \<and> (playerType r = Iframe \<longrightarrow> isDownloadable (sources r ! 0) = Some False)"
  by (auto simp: parseResolved_def bilibiliResult_def Let_def split: option.splits if_splits)

text \<open>
  Claim C7.  Whenever \<open>parseVideoInput\<close> (either version) resolves, the result has at least
  one source, so that \<open>sources[0]\<close> exists; and when its \<open>playerType\<close> is \<open>iframe\<close>, the
  source at index 0 has \<open>isDownloadable\<close> false.
\<close>

theorem resolved_result_has_sources:
  "parseVideoInput e input = Inr r \<or> parseVideoInput2 e input = Inr r \<Longrightarrow>
     sources r \<noteq> [] \<and> (playerType r = Iframe \<longrightarrow> isDownloadable (sources r ! 0) = Some False)"
  unfolding parseVideoInput_def parseVideoInput2_def Let_def
  using parseResolved_sources by blast

theorem resolved_result_has_sources_witness:
  "parseVideoInput offline (js ''https://youtu.be/dQw4w9WgXcQ'') =
     Inr \<lparr>id = js ''dQw4w9WgXcQ'', title = youtubeTitle, platform = Youtube,
          playerType = Iframe,
          thumbnailUrl = Some (js ''https://img.youtube.com/vi/dQw4w9WgXcQ/maxresdefault.jpg''),
          duration = None,
          sources =
            [\<lparr>url = js ''https://www.youtube.com/embed/dQw4w9WgXcQ'',
              format = js ''Embed'', quality = js ''Auto'', size = Some (js ''N/A''),
              isDownloadable = Some False\<rparr>,
             \<lparr>url = js ''https://youtu.be/dQw4w9WgXcQ'', format = js ''Source'',
              quality = js ''Original'', size = Some (js ''External''),
              isDownloadable = Some True\<rparr>],
          description = None, aiSummary = None\<rparr>
   \<and> isDownloadable
         ([\<lparr>url = js ''https://www.youtube.com/embed/dQw4w9WgXcQ'',
              format = js ''Embed'', quality = js ''Auto'', size = Some (js ''N/A''),
              isDownloadable = Some False\<rparr>,
             \<lparr>url = js ''https://youtu.be/dQw4w9WgXcQ'', format = js ''Source'',
              quality = js ''Original'', size = Some (js ''External''),
              isDownloadable = Some True\<rparr>] ! 0) = Some False"
proof -
  let ?r = "\<lparr>id = js ''dQw4w9WgXcQ'', title = youtubeTitle, platform = Youtube,
          playerType = Iframe,
          thumbnailUrl = Some (js ''https://img.youtube.com/vi/dQw4w9WgXcQ/maxresdefault.jpg''),
          duration = None,
          sources =
            [\<lparr>url = js ''https://www.youtube.com/embed/dQw4w9WgXcQ'',
              format = js ''Embed'', quality = js ''Auto'', size = Some (js ''N/A''),
              isDownloadable = Some False\<rparr>,
             \<lparr>url = js ''https://youtu.be/dQw4w9WgXcQ'', format = js ''Source'',
              quality = js ''Original'', size = Some (js ''External''),
              isDownloadable = Some True\<rparr>],
          description = None, aiSummary = None\<rparr>"
  have h: "parseVideoInput offline (js ''https://youtu.be/dQw4w9WgXcQ'') = Inr ?r"
    by code_simp
  have "parseVideoInput offline (js ''https://youtu.be/dQw4w9WgXcQ'') = Inr ?r
        \<or> parseVideoInput2 offline (js ''https://youtu.be/dQw4w9WgXcQ'') = Inr ?r"
    using h by simp
  from resolved_result_has_sources [OF this] h show ?thesis by simp
qed

subsection \<open>The two versions\<close>

text \<open>
  Claim C10.  On an input that does not contain \<open>b23.tv\<close>, the two versions of
  \<open>parseVideoInput\<close> return the same result in the same environment (the same clock and
  the same answers of the endpoints).
\<close>

theorem versions_agree_without_short_link:
  assumes "\<not> js_includes input (js ''b23.tv'')"
  shows "parseVideoInput2 e input = parseVideoInput e input"
proof -
  from assms have n: "\<not> js_includes (trim input) (js ''b23.tv'')"
    using js_includes_trim by blast
  have 1: "resolveShortLink e (trim input) = (trim input, [])"
    using n by (simp add: resolveShortLink_def)
  have 2: "resolveShortLink2 e (trim input) = (trim input, [])"
    using n by (simp add: resolveShortLink2_def)
  show ?thesis
    by (simp add: parseVideoInput_def parseVideoInput2_def 1 2 extractIds2_def)
qed

theorem versions_agree_without_short_link_witness:
  "\<not> js_includes (js ''https://example.com/video.MP4'') (js ''b23.tv'')
   \<and> parseVideoInput2 offline (js ''https://example.com/video.MP4'')
       = parseVideoInput offline (js ''https://example.com/video.MP4'')
   \<and> parseVideoInput offline (js ''https://example.com/video.MP4'')
       = Inr \<lparr>id = js ''direct_file'', title = js ''video.MP4'', platform = Direct,
               playerType = Native, thumbnailUrl = None, duration = None,
               sources = [\<lparr>url = js ''https://example.com/video.MP4'', format = js ''Original'',
                           quality = js ''Source'', size = Some (js ''Unknown''),
                           isDownloadable = Some True\<rparr>],
               description = None, aiSummary = None\<rparr>"
proof -
  have h: "\<not> js_includes (js ''https://example.com/video.MP4'') (js ''b23.tv'')"
    by code_simp
  have v: "parseVideoInput offline (js ''https://example.com/video.MP4'')
       = Inr \<lparr>id = js ''direct_file'', title = js ''video.MP4'', platform = Direct,
               playerType = Native, thumbnailUrl = None, duration = None,
               sources = [\<lparr>url = js ''https://example.com/video.MP4'', format = js ''Original'',
                           quality = js ''Source'', size = Some (js ''Unknown''),
                           isDownloadable = Some True\<rparr>],
               description = None, aiSummary = None\<rparr>"
    by code_simp
  from versions_agree_without_short_link [OF h, of offline] h v show ?thesis by simp
qed

subsection \<open>An \<open>av\<close> inside a word\<close>

text \<open>
  Claim C9.  The input \<open>https://cdn.example.com/flav123.mp4\<close> ends in a supported media
  extension, yet \<open>parseVideoInput\<close> takes the Bilibili pipeline with \<open>avid\<close> 123: in every
  environment its result is that of the Bilibili pipeline, a resolved result has platform
  \<open>bilibili\<close> and id 123 (never \<open>direct\<close>), and with no endpoint answering it resolves to
  the iframe result for \<open>aid=123\<close>.
\<close>

theorem av_inside_word_takes_bilibili_pipeline:
  "match_re re_direct (js ''https://cdn.example.com/flav123.mp4'') \<noteq> None
   \<and> parseVideoInput e (js ''https://cdn.example.com/flav123.mp4'')
       = bilibiliResult (fetchMetadata e [] (js ''123'')) (fst (resolveStream e [] (js ''123'')))
           [] (js ''123'')
   \<and> (case parseVideoInput e (js ''https://cdn.example.com/flav123.mp4'') of
         Inr r \<Rightarrow> platform r = Bilibili \<and> id r = js ''123''
       | Inl err \<Rightarrow> err = TypeError)
   \<and> parseVideoInput offline (js ''https://cdn.example.com/flav123.mp4'')
       = Inr \<lparr>id = js ''123'', title = bilibiliTitle (js ''123''), platform = Bilibili,
               playerType = Iframe, thumbnailUrl = Some [], duration = Some [],
               sources = [\<lparr>url = js ''//player.bilibili.com/player.html?aid=123&high_quality=1&danmaku=0'',
                           format = js ''Embed'', quality = js ''Auto'',
                           size = Some (js ''N/A''), isDownloadable = Some False\<rparr>],
               description = Some [], aiSummary = None\<rparr>"
proof -
  let ?i = "js ''https://cdn.example.com/flav123.mp4''"
  have a: "match_re re_direct ?i \<noteq> None" by code_simp
  have s1: "resolveShortLink e (trim ?i) = (?i, [])"
    unfolding resolveShortLink_def by code_simp
  have s2: "extractIds ?i [] = ([], js ''123'')" by code_simp
  have n: "js ''123'' \<noteq> []" by code_simp
  have b: "parseVideoInput e ?i
       = bilibiliResult (fetchMetadata e [] (js ''123'')) (fst (resolveStream e [] (js ''123'')))
           [] (js ''123'')"
    by (simp add: parseVideoInput_def s1 s2 parseResolved_def n)
  have c: "(case parseVideoInput e ?i of
         Inr r \<Rightarrow> platform r = Bilibili \<and> id r = js ''123''
       | Inl err \<Rightarrow> err = TypeError)"
    unfolding b by (simp add: bilibiliResult_def Let_def split: option.splits)
  have d: "parseVideoInput offline ?i
       = Inr \<lparr>id = js ''123'', title = bilibiliTitle (js ''123''), platform = Bilibili,
               playerType = Iframe, thumbnailUrl = Some [], duration = Some [],
               sources = [\<lparr>url = js ''//player.bilibili.com/player.html?aid=123&high_quality=1&danmaku=0'',
                           format = js ''Embed'', quality = js ''Auto'',
                           size = Some (js ''N/A''), isDownloadable = Some False\<rparr>],
               description = Some [], aiSummary = None\<rparr>"
    by code_simp
  from a b c d show ?thesis by blast
qed

subsection \<open>The stream answer decides the player\<close>

text \<open>When the identifiers are found and \<open>metaData\<close> is an object, the answer of the
  parser service alone decides between the native and the iframe result.\<close>

lemma stream_decides_player:
  assumes ids: "bvid \<noteq> [] \<or> avid \<noteq> []"
    and meta: "fetchMetadata e bvid avid \<noteq> None"
  shows "(streamResponse e bvid avid = Parsed j \<and> stream_code j = Some 0
            \<and> stream_url j = Some u \<and> u \<noteq> [] \<longrightarrow>
          (\<exists>r s. parseResolved e x bvid avid = Inr r \<and> playerType r = Native
                 \<and> sources r = [s] \<and> url s = u \<and> isDownloadable s = Some True))
       \<and> (streamResponse e bvid avid = FetchFailed \<or> streamResponse e bvid avid = Unparsable
            \<or> (\<exists>k. streamResponse e bvid avid = Parsed k
                   \<and> (stream_code k \<noteq> Some 0 \<or> stream_url k = None \<or> stream_url k = Some [])) \<longrightarrow>
          (\<exists>r s. parseResolved e x bvid avid = Inr r \<and> playerType r = Iframe
                 \<and> sources r = [s] \<and> isDownloadable s = Some False))"
proof -
  from meta obtain md where md: "fetchMetadata e bvid avid = Some md" by blast
  have ok: "streamResponse e bvid avid = Parsed j \<and> stream_code j = Some 0
            \<and> stream_url j = Some u \<and> u \<noteq> [] \<Longrightarrow>
          (\<exists>r s. parseResolved e x bvid avid = Inr r \<and> playerType r = Native
                 \<and> sources r = [s] \<and> url s = u \<and> isDownloadable s = Some True)"
    using ids md
    by (simp add: parseResolved_def bilibiliResult_def resolveStream_def orElse_def Let_def)
  have bad: "streamResponse e bvid avid = FetchFailed \<or> streamResponse e bvid avid = Unparsable
            \<or> (\<exists>k. streamResponse e bvid avid = Parsed k
                   \<and> (stream_code k \<noteq> Some 0 \<or> stream_url k = None \<or> stream_url k = Some [])) \<Longrightarrow>
          (\<exists>r s. parseResolved e x bvid avid = Inr r \<and> playerType r = Iframe
                 \<and> sources r = [s] \<and> isDownloadable s = Some False)"
    using ids md
    by (auto simp: parseResolved_def bilibiliResult_def resolveStream_def orElse_def Let_def)
  from ok bad show ?thesis by blast
qed

lemma stream_decides_player_of_input:
  assumes "resolveShortLink e (trim input) = (u, b)"
    and "extractIds u b = (bvid, avid)"
    and "bvid \<noteq> [] \<or> avid \<noteq> []"
    and "fetchMetadata e bvid avid \<noteq> None"
  shows "(streamResponse e bvid avid = Parsed j \<and> stream_code j = Some 0
            \<and> stream_url j = Some d \<and> d \<noteq> [] \<longrightarrow>
          (\<exists>r s. parseVideoInput e input = Inr r \<and> playerType r = Native
                 \<and> sources r = [s] \<and> url s = d \<and> isDownloadable s = Some True))
       \<and> (streamResponse e bvid avid = FetchFailed \<or> streamResponse e bvid avid = Unparsable
            \<or> (\<exists>k. streamResponse e bvid avid = Parsed k
                   \<and> (stream_code k \<noteq> Some 0 \<or> stream_url k = None \<or> stream_url k = Some [])) \<longrightarrow>
          (\<exists>r s. parseVideoInput e input = Inr r \<and> playerType r = Iframe
                 \<and> sources r = [s] \<and> isDownloadable s = Some False))"
proof -
  have "parseVideoInput e input = parseResolved e u bvid avid"
    by (simp add: parseVideoInput_def assms(1,2))
  with stream_decides_player [OF assms(3,4), of j d u] show ?thesis by simp
qed

lemma stream_ok_example:
  "parseVideoInput streamOk (js ''https://www.bilibili.com/video/BV1GJ411x7h7'') =
   Inr \<lparr>id = js ''BV1GJ411x7h7'', title = js ''Demo'', platform = Bilibili, playerType = Native,
                    thumbnailUrl = Some [], duration = Some (js ''2:05''),
                    sources = [\<lparr>url = js ''https://x/y.mp4'', format = js ''MP4 (Direct)'',
                                quality = js ''High (q=80)'', size = Some (js ''Unknown''),
                                isDownloadable = Some True\<rparr>],
                    description = Some [], aiSummary = None\<rparr>"
  by code_simp

text \<open>
  Claim C1.  The stream answer decides the player in every run in which \<open>metaData\<close> is an
  object (\<open>stream_decides_player_of_input\<close>).  When the metadata endpoint answers with \<open>code\<close> 0
  and no \<open>data\<close>, it does not: the parser service answers
  \<open>{code: 0, url: "https://x/y.mp4"}\<close>, and both versions of \<open>parseVideoInput\<close> reject
  with a \<open>TypeError\<close> instead of returning the native result.
\<close>

theorem metadata_without_data_rejects:
  "streamResponse metaWithoutData (js ''BV1GJ411x7h7'') [] =
      Parsed \<lparr>stream_code = Some 0, stream_url = Some (js ''https://x/y.mp4'')\<rparr>
   \<and> parseVideoInput metaWithoutData (js ''https://www.bilibili.com/video/BV1GJ411x7h7'')
       = Inl TypeError
   \<and> parseVideoInput2 metaWithoutData (js ''https://www.bilibili.com/video/BV1GJ411x7h7'')
       = Inl TypeError"
  by code_simp

subsection \<open>Rejections\<close>

text \<open>The error of the last line is raised exactly when no pattern matches.\<close>

lemma unsupported_iff:
  "parseVideoInput e input = Inl FormatNotSupported \<longleftrightarrow>
     extractIds (fst (resolveShortLink e (trim input))) (snd (resolveShortLink e (trim input))) = ([], [])
     \<and> match_re ytRegex (fst (resolveShortLink e (trim input))) = None
     \<and> match_re re_direct (fst (resolveShortLink e (trim input))) = None"
  by (auto simp: parseVideoInput_def parseResolved_def bilibiliResult_def Let_def prod_eq_iff
      split: option.splits if_splits)

text \<open>Every rejection has one of three causes: no pattern matches; an identifier is found
  and \<open>metaData\<close> is \<open>undefined\<close>; or the direct-file pattern matches and the file name
  cannot be decoded.\<close>

lemma rejection_cases:
  assumes "parseVideoInput e input = Inl err"
    and "resolveShortLink e (trim input) = (u, b)"
    and "extractIds u b = (bvid, avid)"
  shows "(err = FormatNotSupported \<and> bvid = [] \<and> avid = []
            \<and> match_re ytRegex u = None \<and> match_re re_direct u = None)
       \<or> (err = TypeError \<and> (bvid \<noteq> [] \<or> avid \<noteq> []) \<and> fetchMetadata e bvid avid = None)
       \<or> (err = URIError \<and> bvid = [] \<and> avid = [] \<and> match_re ytRegex u = None
            \<and> match_re re_direct u \<noteq> None
            \<and> decodeURIComponent (orElse (Some (lastSegment u)) unnamedVideo) = None)"
  using assms
  by (auto simp: parseVideoInput_def parseResolved_def bilibiliResult_def Let_def
      split: option.splits if_splits)

text \<open>
  Claim C2.  The input \<open>https://example.com/100%.mp4\<close> matches the direct-file pattern,
  and both versions of \<open>parseVideoInput\<close> reject it in every environment:
  \<open>decodeURIComponent\<close> raises \<open>URIError\<close> on the file name \<open>100%.mp4\<close>.
\<close>

theorem malformed_percent_escape_rejects:
  "match_re re_direct (trim (js ''https://example.com/100%.mp4'')) \<noteq> None
   \<and> parseVideoInput e (js ''https://example.com/100%.mp4'') = Inl URIError
   \<and> parseVideoInput2 e (js ''https://example.com/100%.mp4'') = Inl URIError"
  by code_simp

section \<open>Properties of the buffering download\<close>

subsection \<open>Progress of a successful download\<close>

lemma fraction_mono:
  fixes tot :: int
  assumes "0 < tot"
  shows "(of_nat l :: rat) / of_int tot * 100 \<le> of_nat (l + n) / of_int tot * 100"
proof -
  have "(of_nat l :: rat) \<le> of_nat (l + n)" by simp
  moreover have "(0::rat) < of_int tot" using assms by simp
  ultimately have "(of_nat l :: rat) / of_int tot \<le> of_nat (l + n) / of_int tot"
    by (rule divide_right_mono [OF _ less_imp_le])
  then show ?thesis by (rule mult_right_mono) simp
qed

lemma chunk_reading:
  assumes "reading s"
  shows "reading (chunk v s) \<and> downloadProgress (snd s) \<le> downloadProgress (snd (chunk v s))"
proof (cases v)
  case None
  with assms show ?thesis by (simp add: chunk_def reading_def)
next
  case (Some n)
  show ?thesis
  proof (cases "0 < total (fst s)")
    case False
    with Some assms show ?thesis by (simp add: chunk_def reading_def Let_def)
  next
    case True
    from assms True have le: "downloadProgress (snd s)
        \<le> of_nat (loaded (fst s)) / of_int (total (fst s)) * 100"
      by (simp add: reading_def)
    from fraction_mono [OF True] le have le2: "downloadProgress (snd s)
        \<le> of_nat (loaded (fst s) + n) / of_int (total (fst s)) * 100"
      by (rule order_trans [rotated])
    from assms have b: "0 \<le> downloadProgress (snd s)" "downloadProgress (snd s) \<le> 99"
      and st: "stage (fst s) = AwaitingRead" "\<not> isAborted (fst s)"
      by (simp_all add: reading_def)
    from True Some le2 b st show ?thesis
      by (simp add: chunk_def reading_def Let_def min_def)
  qed
qed

lemma step_chunk: "stage (fst s) = AwaitingRead \<Longrightarrow> fetchVideo_step (ReadResult v) s = chunk v s"
  by (cases s) simp

lemma step_done: "stage (fst s) = AwaitingRead \<Longrightarrow> fetchVideo_step ReadDone s = completed s"
  by (cases s) simp

lemma body_trace:
  assumes "reading s"
  shows "sorted (downloadProgress (snd s) # progressTrace (map ReadResult vs @ [ReadDone]) s)
       \<and> (\<forall>x \<in> set (butlast (progressTrace (map ReadResult vs @ [ReadDone]) s)). x \<le> 99)
       \<and> last (progressTrace (map ReadResult vs @ [ReadDone]) s) = 100
       \<and> progressTrace (map ReadResult vs @ [ReadDone]) s \<noteq> []"
  using assms
proof (induction vs arbitrary: s)
  case Nil
  then show ?case
    by (simp add: step_done reading_def completed_def Let_def)
next
  case (Cons v vs)
  let ?s' = "chunk v s"
  from Cons.prems have st: "stage (fst s) = AwaitingRead" by (simp add: reading_def)
  from chunk_reading [OF Cons.prems, of v]
  have r': "reading ?s'" and le: "downloadProgress (snd s) \<le> downloadProgress (snd ?s')"
    by simp_all
  from r' have le99: "downloadProgress (snd ?s') \<le> 99" by (simp add: reading_def)
  note ih = Cons.IH [OF r']
  have tr: "progressTrace (map ReadResult (v # vs) @ [ReadDone]) s
      = downloadProgress (snd ?s') # progressTrace (map ReadResult vs @ [ReadDone]) ?s'"
    by (simp add: step_chunk [OF st])
  from ih le le99 show ?case unfolding tr by auto
qed

lemma body_final:
  assumes "reading s"
  shows "blobUrl (snd (fetchVideo (map ReadResult vs @ [ReadDone]) s)) = Some (nextUrl (snd s))
       \<and> nextUrl (snd s) \<in> set (objectUrls (snd (fetchVideo (map ReadResult vs @ [ReadDone]) s)))
       \<and> stage (fst (fetchVideo (map ReadResult vs @ [ReadDone]) s)) = Settled"
  using assms
proof (induction vs arbitrary: s)
  case Nil
  then show ?case by (simp add: step_done reading_def completed_def Let_def)
next
  case (Cons v vs)
  from Cons.prems have st: "stage (fst s) = AwaitingRead" by (simp add: reading_def)
  from chunk_reading [OF Cons.prems, of v] have r': "reading (chunk v s)" by simp
  have n: "nextUrl (snd (chunk v s)) = nextUrl (snd s)"
    by (simp add: chunk_def Let_def split: option.splits)
  from Cons.IH [OF r'] show ?case by (simp add: step_chunk [OF st] n)
qed

text \<open>
  Claim C3.  A native player starts a transfer; the response is \<open>ok\<close> with a body, the
  chunks arrive, the body ends, and the transfer is not aborted.  Then the progress shown,
  from the 0 of the reset on, never decreases; it is at most 99 after every delivery before
  the end of the body; and it is 100 after the last delivery, the one in which the blob is
  assembled, its object URL made and stored in \<open>blobUrl\<close>.
\<close>

theorem successful_download_progress:
  assumes "effect Native p = (Some t0, p0)"
    and "ds = FetchResponse True True contentLength # map ReadResult vs @ [ReadDone]"
  shows "downloadProgress p0 = 0
       \<and> sorted (downloadProgress p0 # progressTrace ds (t0, p0))
       \<and> (\<forall>x \<in> set (butlast (progressTrace ds (t0, p0))). x \<le> 99)
       \<and> last (progressTrace ds (t0, p0)) = 100
       \<and> blobUrl (snd (fetchVideo ds (t0, p0))) = Some (nextUrl p0)
       \<and> nextUrl p0 \<in> set (objectUrls (snd (fetchVideo ds (t0, p0))))
       \<and> stage (fst (fetchVideo ds (t0, p0))) = Settled"
proof -
  let ?s1 = "fetchVideo_step (FetchResponse True True contentLength) (t0, p0)"
  from assms(1) have t0: "stage t0 = AwaitingFetch" "\<not> isAborted t0"
    and p0: "downloadProgress p0 = 0"
    by (auto simp: effect_def freshTransfer_def Let_def split: option.splits)
  have s1: "?s1 = (t0\<lparr>stage := AwaitingRead,
                       total := (case contentLength of None \<Rightarrow> 0 | Some n \<Rightarrow> n),
                       loaded := 0, chunks := []\<rparr>, p0)"
    using t0 by simp
  have r: "reading ?s1" unfolding s1 using t0 p0 by (simp add: reading_def)
  have d1: "downloadProgress (snd ?s1) = 0" "nextUrl (snd ?s1) = nextUrl p0"
    unfolding s1 using p0 by simp_all
  have tr: "progressTrace ds (t0, p0)
      = downloadProgress (snd ?s1) # progressTrace (map ReadResult vs @ [ReadDone]) ?s1"
    unfolding assms(2) by simp
  have fv: "fetchVideo ds (t0, p0) = fetchVideo (map ReadResult vs @ [ReadDone]) ?s1"
    unfolding assms(2) by simp
  from body_trace [OF r, of vs] body_final [OF r, of vs] p0 d1
  show ?thesis unfolding tr fv by auto
qed

theorem successful_download_progress_witness:
  "effect Native initialPlayer = (Some freshTransfer, initialPlayer\<lparr>isDownloading := True\<rparr>)
   \<and> sampleDownload = FetchResponse True True (Some 10) # map ReadResult [Some 4, Some 6] @ [ReadDone]
   \<and> progressTrace sampleDownload (freshTransfer, initialPlayer\<lparr>isDownloading := True\<rparr>)
       = [0, 40, 99, 100]
   \<and> sorted (downloadProgress (initialPlayer\<lparr>isDownloading := True\<rparr>)
        # progressTrace sampleDownload (freshTransfer, initialPlayer\<lparr>isDownloading := True\<rparr>))
   \<and> blobUrl (snd (fetchVideo sampleDownload (freshTransfer, initialPlayer\<lparr>isDownloading := True\<rparr>)))
       = Some 0"
proof -
  have e: "effect Native initialPlayer = (Some freshTransfer, initialPlayer\<lparr>isDownloading := True\<rparr>)"
    by (simp add: effect_def initialPlayer_def)
  have d: "sampleDownload = FetchResponse True True (Some 10) # map ReadResult [Some 4, Some 6] @ [ReadDone]"
    by (simp add: sampleDownload_def)
  have t: "progressTrace sampleDownload (freshTransfer, initialPlayer\<lparr>isDownloading := True\<rparr>)
       = [0, 40, 99, 100]"
    by (simp add: sampleDownload_def freshTransfer_def initialPlayer_def chunk_def completed_def
        Let_def)
  have n: "nextUrl (initialPlayer\<lparr>isDownloading := True\<rparr>) = 0"
    by (simp add: initialPlayer_def)
  from successful_download_progress [OF e d] e d t n show ?thesis by simp
qed

subsection \<open>An aborted transfer\<close>

lemma caught_aborted:
  "isAborted (fst s) \<Longrightarrow> snd (caught err s) = snd s \<and> isAborted (fst (caught err s))"
  by (simp add: caught_def Let_def)

lemma step_aborted:
  assumes "isAborted (fst s)"
  shows "isAborted (fst (fetchVideo_step d s))
       \<and> blobUrl (snd (fetchVideo_step d s)) = blobUrl (snd s)
       \<and> useDirectStream (snd (fetchVideo_step d s)) = useDirectStream (snd s)
       \<and> isDownloading (snd (fetchVideo_step d s)) = isDownloading (snd s)
       \<and> (downloadProgress (snd (fetchVideo_step d s)) = downloadProgress (snd s)
          \<or> downloadProgress (snd (fetchVideo_step d s)) \<le> 99)"
proof (cases s)
  case (Pair t p)
  with assms have a: "isAborted t" by simp
  show ?thesis
    unfolding Pair using a
    by (cases "stage t"; cases d)
       (auto simp: caught_def completed_def chunk_def Let_def split: option.splits)
qed

lemma run_aborted:
  assumes "isAborted (fst s)"
  shows "isAborted (fst (fetchVideo ds s))
       \<and> blobUrl (snd (fetchVideo ds s)) = blobUrl (snd s)
       \<and> useDirectStream (snd (fetchVideo ds s)) = useDirectStream (snd s)
       \<and> isDownloading (snd (fetchVideo ds s)) = isDownloading (snd s)
       \<and> (downloadProgress (snd (fetchVideo ds s)) = downloadProgress (snd s)
          \<or> downloadProgress (snd (fetchVideo ds s)) \<le> 99)"
  using assms
proof (induction ds arbitrary: s)
  case Nil
  then show ?case by simp
next
  case (Cons d ds)
  from step_aborted [OF Cons.prems, of d]
  have a: "isAborted (fst (fetchVideo_step d s))"
    and eqs: "blobUrl (snd (fetchVideo_step d s)) = blobUrl (snd s)"
      "useDirectStream (snd (fetchVideo_step d s)) = useDirectStream (snd s)"
      "isDownloading (snd (fetchVideo_step d s)) = isDownloading (snd s)"
    and pr: "downloadProgress (snd (fetchVideo_step d s)) = downloadProgress (snd s)
          \<or> downloadProgress (snd (fetchVideo_step d s)) \<le> 99"
    by simp_all
  from Cons.IH [OF a] eqs pr show ?case by auto
qed

lemma not_abort: "e \<noteq> AbortError \<longleftrightarrow> e = OtherError"
  by (cases e) simp_all

lemma fallback_cause:
  assumes "useDirectStream (snd (fetchVideo_step d (t, p)))" and "\<not> useDirectStream p"
  shows "\<not> isAborted t \<and> nonAbortFailure (stage t) d"
  using assms
  by (cases "stage t"; cases d)
     (auto simp: caught_def completed_def chunk_def Let_def nonAbortFailure_def not_abort
           split: option.splits if_splits)

lemma step_abortRejection:
  "abortRejection d \<Longrightarrow> snd (fetchVideo_step d s) = snd s"
  by (cases s; cases "stage (fst s)")
     (auto simp: abortRejection_def caught_def Let_def)

lemma run_abortRejection:
  "list_all abortRejection ds \<Longrightarrow> snd (fetchVideo ds s) = snd s"
proof (induction ds arbitrary: s)
  case Nil
  then show ?case by simp
next
  case (Cons d ds)
  then have "abortRejection d" and rest: "list_all abortRejection ds" by simp_all
  from step_abortRejection [OF this(1), of s] Cons.IH [OF rest, of "fetchVideo_step d s"]
  show ?case by simp
qed

text \<open>The write of the progress inside the read loop (line 80) is not behind \<open>isAborted\<close>:
  if a chunk were delivered to a transfer after its cleanup, the progress shown would
  follow it.  Here four bytes of ten arrive late.\<close>

lemma late_chunk_writes_progress:
  "downloadProgress
     (snd (fetchVideo [ReadResult (Some 4)]
            (cleanup (freshTransfer\<lparr>stage := AwaitingRead, total := 10\<rparr>), initialPlayer))) = 40"
  by (simp add: cleanup_def freshTransfer_def initialPlayer_def chunk_def Let_def)

text \<open>
  Claim C4.  An aborted transfer receives the rejection of its pending \<open>fetch\<close> or
  \<open>read\<close> with an \<open>AbortError\<close>: then the state of the player, every field of it and the
  object URLs, is what it was.  Whatever else were delivered after the cleanup,
  \<open>blobUrl\<close>, \<open>useDirectStream\<close> and \<open>isDownloading\<close> stay as they are and the progress
  is never set to 100.  And for every transfer, a step that turns \<open>useDirectStream\<close> on
  is a step of a transfer that is not aborted, on a failure other than an abort.
\<close>

theorem aborted_transfer_is_silent:
  "(list_all abortRejection ds \<longrightarrow> snd (fetchVideo ds (cleanup t, p)) = p)
   \<and> blobUrl (snd (fetchVideo es (cleanup t, p))) = blobUrl p
   \<and> useDirectStream (snd (fetchVideo es (cleanup t, p))) = useDirectStream p
   \<and> isDownloading (snd (fetchVideo es (cleanup t, p))) = isDownloading p
   \<and> (downloadProgress (snd (fetchVideo es (cleanup t, p))) = downloadProgress p
      \<or> downloadProgress (snd (fetchVideo es (cleanup t, p))) \<le> 99)
   \<and> (useDirectStream (snd (fetchVideo_step d (t', p'))) \<and> \<not> useDirectStream p'
        \<longrightarrow> \<not> isAborted t' \<and> nonAbortFailure (stage t') d)"
proof -
  have a: "isAborted (fst (cleanup t, p))" by (simp add: cleanup_def)
  have s: "list_all abortRejection ds \<longrightarrow> snd (fetchVideo ds (cleanup t, p)) = p"
    using run_abortRejection [of ds "(cleanup t, p)"] by simp
  from s run_aborted [OF a, of es] fallback_cause [of d t' p'] show ?thesis by auto
qed

theorem aborted_transfer_is_silent_witness:
  "list_all abortRejection [ReadReject AbortError]
   \<and> snd (fetchVideo [ReadReject AbortError]
            (cleanup (freshTransfer\<lparr>stage := AwaitingRead, total := 10, loaded := 4\<rparr>),
             initialPlayer\<lparr>isDownloading := True, downloadProgress := 40\<rparr>))
       = initialPlayer\<lparr>isDownloading := True, downloadProgress := 40\<rparr>
   \<and> useDirectStream (snd (fetchVideo_step (ReadReject OtherError)
       (freshTransfer\<lparr>stage := AwaitingRead\<rparr>, initialPlayer)))
   \<and> \<not> useDirectStream initialPlayer
   \<and> \<not> isAborted (freshTransfer\<lparr>stage := AwaitingRead\<rparr>)
   \<and> nonAbortFailure (stage (freshTransfer\<lparr>stage := AwaitingRead\<rparr>)) (ReadReject OtherError)"
proof -
  have h: "list_all abortRejection [ReadReject AbortError]"
    by (simp add: abortRejection_def)
  have a: "useDirectStream (snd (fetchVideo_step (ReadReject OtherError)
       (freshTransfer\<lparr>stage := AwaitingRead\<rparr>, initialPlayer)))"
    by (simp add: freshTransfer_def caught_def)
  have b: "\<not> useDirectStream initialPlayer" by (simp add: initialPlayer_def)
  from aborted_transfer_is_silent
         [of "[ReadReject AbortError]"
             "freshTransfer\<lparr>stage := AwaitingRead, total := 10, loaded := 4\<rparr>"
             "initialPlayer\<lparr>isDownloading := True, downloadProgress := 40\<rparr>"
             "[]" "ReadReject OtherError" "freshTransfer\<lparr>stage := AwaitingRead\<rparr>"
             initialPlayer]
       h a b
  show ?thesis by simp
qed

subsection \<open>The lifetime of the object URL\<close>

text \<open>A change of the source revokes the object URL that the component holds.\<close>

lemma propsChange_revokes:
  "blobUrl (snd c) = Some b \<Longrightarrow>
   b \<notin> set (objectUrls (snd (propsChange pt c))) \<and> blobUrl (snd (propsChange pt c)) = None"
  by (simp add: propsChange_def effect_def Let_def)

text \<open>When the end of the body reaches a transfer after its cleanup, the object URL is
  made all the same and is stored nowhere.\<close>

lemma late_completion_leaks:
  "stage t = AwaitingRead \<Longrightarrow>
   objectUrls (snd (fetchVideo [ReadDone] (cleanup t, p))) = objectUrls p @ [nextUrl p]
   \<and> blobUrl (snd (fetchVideo [ReadDone] (cleanup t, p))) = blobUrl p"
  by (simp add: cleanup_def completed_def Let_def)

text \<open>
  Claim C5.  A native player is mounted and the sample download completes: the component
  holds the object URL 0.  Unmounting leaves that object URL live, where a change of the
  source revokes it.  The cleanup of the effect aborts the transfer and revokes nothing.
\<close>

theorem unmount_keeps_object_url:
  "deliver sampleDownload (mount Native)
     = (Some \<lparr>isAborted = False, stage = Settled, total = 10, loaded = 10, chunks = [4, 6]\<rparr>,
        initialPlayer\<lparr>downloadProgress := 100, blobUrl := Some 0, objectUrls := [0], nextUrl := 1\<rparr>)
   \<and> objectUrls (snd (unmount (deliver sampleDownload (mount Native)))) = [0]
   \<and> objectUrls (snd (propsChange Native (deliver sampleDownload (mount Native)))) = []"
  by (simp add: deliver_def mount_def unmount_def propsChange_def effect_def sampleDownload_def
      freshTransfer_def initialPlayer_def chunk_def completed_def Let_def)

section \<open>The requests of the stream resolution\<close>

subsection \<open>What the capture groups capture\<close>

lemma ends_rep_Cls:
  "s' \<in> set (ends (rep n (Cls p)) s) \<Longrightarrow> \<exists>m. s = m @ s' \<and> length m = n \<and> (\<forall>c \<in> set m. p c)"
proof (induction n arbitrary: s)
  case 0
  then show ?case by simp
next
  case (Suc n)
  then obtain x xs where s: "s = x # xs" and px: "p x" and in': "s' \<in> set (ends (rep n (Cls p)) xs)"
    by (auto split: list.splits if_splits)
  from Suc.IH [OF in'] obtain m where "xs = m @ s'" "length m = n" "\<forall>c \<in> set m. p c" by blast
  with s px have "s = (x # m) @ s' \<and> length (x # m) = Suc n \<and> (\<forall>c \<in> set (x # m). p c)" by simp
  then show ?case by blast
qed

lemma ends_Star_Cls_Cons:
  "ends (Star (Cls p)) (x # xs) = (if p x then ends (Star (Cls p)) xs @ [x # xs] else [x # xs])"
  by (subst ends.simps(7)) simp

lemma ends_Star_Cls:
  "s' \<in> set (ends (Star (Cls p)) s) \<Longrightarrow> \<exists>m. s = m @ s' \<and> (\<forall>c \<in> set m. p c)"
proof (induction s)
  case Nil
  then show ?case by (simp add: ends.simps(7))
next
  case (Cons x xs)
  show ?case
  proof (cases "s' = x # xs")
    case True
    then show ?thesis by simp
  next
    case False
    with Cons.prems have px: "p x" and in': "s' \<in> set (ends (Star (Cls p)) xs)"
      by (auto simp: ends_Star_Cls_Cons split: if_splits)
    from Cons.IH [OF in'] obtain m where "xs = m @ s'" "\<forall>c \<in> set m. p c" by blast
    with px have "x # xs = (x # m) @ s' \<and> (\<forall>c \<in> set (x # m). p c)" by simp
    then show ?thesis by blast
  qed
qed

lemma exec_at_Some:
  assumes "exec_at p c s = Some m"
  shows "\<exists>s1 s2. s1 \<in> set (ends p s) \<and> s2 \<in> set (ends c s1)
           \<and> snd m = take (length s1 - length s2) s1"
proof -
  let ?l = "concat (map (\<lambda>s1. map (\<lambda>s2. (s1, s2)) (ends c s1)) (ends p s))"
  from assms obtain s1 s2 rest where l: "?l = (s1, s2) # rest"
    and m: "m = (take (length s - length s2) s, take (length s1 - length s2) s1)"
    by (auto simp: exec_at_def split: list.splits)
  have "(s1, s2) \<in> set ?l" unfolding l by simp
  then have "s1 \<in> set (ends p s) \<and> s2 \<in> set (ends c s1)" by auto
  with m show ?thesis by auto
qed

lemma js_match_Some:
  "js_match p c s = Some m \<Longrightarrow> \<exists>t. exec_at p c t = Some m"
  by (induction s) (auto split: option.splits)

lemma ends_Seq_Cls:
  "s2 \<in> set (ends (Seq (Cls p) R) s1) \<Longrightarrow> \<exists>x r. s1 = x # r \<and> p x \<and> s2 \<in> set (ends R r)"
  by (cases s1) (auto split: if_splits)

lemma ends_Seq_Ch:
  "s2 \<in> set (ends (Seq (Ch c) R) s1) \<Longrightarrow> \<exists>r. s1 = c # r \<and> s2 \<in> set (ends R r)"
  by (cases s1) (auto split: if_splits)

lemma ends_BV:
  assumes "s2 \<in> set (ends (Seq (lit ''BV'') R) s1)"
  shows "\<exists>r. s1 = 66 # 86 # r \<and> s2 \<in> set (ends R r)"
proof (cases s1)
  case Nil
  with assms show ?thesis by (simp add: lit_def)
next
  case outer: (Cons x xs)
  show ?thesis
  proof (cases xs)
    case Nil
    with outer assms show ?thesis by (simp add: lit_def split: if_splits)
  next
    case (Cons y ys)
    with outer assms show ?thesis by (simp add: lit_def split: if_splits)
  qed
qed

lemma bv_group:
  assumes "js_match p (Seq (lit ''BV'') (rep 10 (Cls isAlnum))) s = Some m"
  shows "\<forall>c \<in> set (snd m). isAlnum c"
proof -
  from js_match_Some [OF assms] obtain t
    where "exec_at p (Seq (lit ''BV'') (rep 10 (Cls isAlnum))) t = Some m" by blast
  from exec_at_Some [OF this] obtain s1 s2
    where in2: "s2 \<in> set (ends (Seq (lit ''BV'') (rep 10 (Cls isAlnum))) s1)"
      and m: "snd m = take (length s1 - length s2) s1"
    by blast
  from ends_BV [OF in2] obtain r
    where r: "s1 = 66 # 86 # r" and in3: "s2 \<in> set (ends (rep 10 (Cls isAlnum)) r)" by blast
  from ends_rep_Cls [OF in3] obtain k where k: "r = k @ s2" "\<forall>c \<in> set k. isAlnum c" by blast
  from r k m have "snd m = 66 # 86 # k" by simp
  with k show ?thesis by (simp add: isAlnum_def isDigit_def)
qed

lemma bv_capture: "match_re re_bv s = Some m \<Longrightarrow> \<forall>c \<in> set (snd m). isAlnum c"
  unfolding match_re_def re_bv_def fst_conv snd_conv by (rule bv_group)

lemma bili_url_capture: "match_re re_bili_url s = Some m \<Longrightarrow> \<forall>c \<in> set (snd m). isAlnum c"
  unfolding match_re_def re_bili_url_def fst_conv snd_conv by (rule bv_group)

lemma av_capture:
  assumes "match_re re_av s = Some m"
  shows "\<forall>c \<in> set (snd m). isAlnum c"
proof -
  from assms have "js_match (lit ''av'') (Seq (Cls isDigit) (Star (Cls isDigit))) s = Some m"
    by (simp only: match_re_def re_av_def fst_conv snd_conv plus1_def)
  from js_match_Some [OF this] obtain t
    where "exec_at (lit ''av'') (Seq (Cls isDigit) (Star (Cls isDigit))) t = Some m" by blast
  from exec_at_Some [OF this] obtain s1 s2
    where in2: "s2 \<in> set (ends (Seq (Cls isDigit) (Star (Cls isDigit))) s1)"
      and m: "snd m = take (length s1 - length s2) s1"
    by blast
  from ends_Seq_Cls [OF in2] obtain x r where s1: "s1 = x # r" and x: "isDigit x"
    and in3: "s2 \<in> set (ends (Star (Cls isDigit)) r)"
    by blast
  from ends_Star_Cls [OF in3] obtain k where k: "r = k @ s2" "\<forall>c \<in> set k. isDigit c" by blast
  from s1 k m have "snd m = x # k" by simp
  with k x show ?thesis by (simp add: isAlnum_def)
qed

subsection \<open>The identifiers are alphanumeric\<close>

lemma resolveShortLink_bvid: "\<forall>c \<in> set (snd (resolveShortLink e u)). isAlnum c"
  using bv_capture
  by (auto simp: resolveShortLink_def split: option.splits response.splits)

lemma resolveShortLink2_bvid: "\<forall>c \<in> set (snd (resolveShortLink2 e u)). isAlnum c"
  using bv_capture bili_url_capture
  by (auto simp: resolveShortLink2_def split: option.splits response.splits)

lemma extractIds_alnum:
  assumes "\<forall>c \<in> set b. isAlnum c" and "extractIds u b = (bvid, avid)"
  shows "(\<forall>c \<in> set bvid. isAlnum c) \<and> (\<forall>c \<in> set avid. isAlnum c)"
  using assms bv_capture [of u] av_capture [of u]
  by (auto simp: extractIds_def Let_def split: option.splits)

subsection \<open>Encoded text and decimal numerals contain no ampersand\<close>

lemma hexDigit_ge: "48 \<le> hexDigit d"
  by (simp add: hexDigit_def)

lemma pct_chars: "c \<in> set (pct bs) \<Longrightarrow> c = 37 \<or> 48 \<le> c"
  by (induction bs) (auto simp: pct_def hexDigit_ge)

lemma unreserved_not_amp: "isUnreserved c \<Longrightarrow> c \<noteq> 38"
  by (auto simp: isUnreserved_def isAlnum_def isDigit_def js_def)

lemma encode_no_amp: "encodeURIComponent s = Some e \<Longrightarrow> 38 \<notin> set e"
proof (induction s arbitrary: e rule: encodeURIComponent.induct)
  case 1
  then show ?case by simp
next
  case (2 c cs)
  have p: "38 \<notin> set (pct bs)" for bs using pct_chars [of 38 bs] by auto
  from "2.prems" "2.IH" p unreserved_not_amp [of c] show ?case
    by (auto split: if_splits list.splits)
qed

lemma encode_total: "\<forall>c \<in> set s. c < 55296 \<Longrightarrow> encodeURIComponent s \<noteq> None"
  by (induction s) auto

lemma str_nat_chars: "c \<in> set (str_nat n) \<Longrightarrow> 48 \<le> c"
proof (induction n rule: str_nat.induct)
  case (1 n)
  then show ?case by (subst (asm) (2) str_nat.simps) (auto split: if_splits)
qed

lemma number_toString_no_amp: "38 \<notin> set (number_toString n)"
  using str_nat_chars [of 38] by (auto simp: number_toString_def)

lemma alnum_facts: "isAlnum c \<Longrightarrow> c \<noteq> 38 \<and> c \<noteq> 61 \<and> c < 55296"
  by (auto simp: isAlnum_def isDigit_def)

subsection \<open>The parameters of the two URLs\<close>

lemma splitOn_none: "c \<notin> set s \<Longrightarrow> splitOn c s = [s]"
  by (induction s) auto

lemma splitOn_append: "c \<notin> set a \<Longrightarrow> splitOn c (a @ c # b) = a # splitOn c b"
  by (induction a) auto

lemma outer_params:
  assumes "38 \<notin> set enc" and "38 \<notin> set ts"
  shows "queryParams (PROXY_RAW @ enc @ js ''&t='' @ ts) = [(js ''url'', enc), (js ''t'', ts)]"
proof -
  have q: "drop 1 (dropWhile (\<lambda>c. c \<noteq> 63) (PROXY_RAW @ enc @ js ''&t='' @ ts))
           = (js ''url='' @ enc) @ 38 # (js ''t='' @ ts)"
    by (simp add: PROXY_RAW_def js_def)
  have a: "38 \<notin> set (js ''url='' @ enc)" using assms(1) by (simp add: js_def)
  have b: "38 \<notin> set (js ''t='' @ ts)" using assms(2) by (simp add: js_def)
  have sp: "splitOn 38 ((js ''url='' @ enc) @ 38 # (js ''t='' @ ts)) = [js ''url='' @ enc, js ''t='' @ ts]"
    by (simp only: splitOn_append [OF a] splitOn_none [OF b])
  show ?thesis
    unfolding queryParams_def q sp by (simp add: js_def)
qed

lemma inner_params:
  assumes "\<forall>c \<in> set bvid. isAlnum c" and "\<forall>c \<in> set avid. isAlnum c"
  shows "queryParams (parseUrl bvid avid) =
           [(if bvid \<noteq> [] then js ''bv'' else js ''av'', if bvid \<noteq> [] then bvid else avid),
            (js ''p'', js ''1''), (js ''q'', js ''80''), (js ''format'', js ''mp4''),
            (js ''otype'', js ''json'')]"
proof -
  let ?i = "if bvid \<noteq> [] then bvid else avid"
  let ?k = "if bvid \<noteq> [] then js ''bv'' else js ''av''"
  from assms have i: "38 \<notin> set ?i" using alnum_facts by auto
  have q: "drop 1 (dropWhile (\<lambda>c. c \<noteq> 63) (parseUrl bvid avid))
           = (?k @ 61 # ?i) @ 38 # js ''p=1&q=80&format=mp4&otype=json''"
    by (simp add: parseUrl_def PARSER_API_def js_def)
  have a: "38 \<notin> set (?k @ 61 # ?i)" using i by (simp add: js_def)
  have rest: "splitOn 38 (js ''p=1&q=80&format=mp4&otype=json'')
           = [js ''p=1'', js ''q=80'', js ''format=mp4'', js ''otype=json'']"
    by code_simp
  have kv: "takeWhile (\<lambda>c. c \<noteq> 61) (?k @ 61 # ?i) = ?k"
    "drop 1 (dropWhile (\<lambda>c. c \<noteq> 61) (?k @ 61 # ?i)) = ?i"
    by (simp_all add: js_def)
  show ?thesis
    unfolding queryParams_def q splitOn_append [OF a] rest
    by (simp add: kv) (simp add: js_def)
qed

text \<open>
  Claim C6, as the code has it.  For the identifiers that steps 1 and 2 of either version
  find, the target \<open>parseUrl\<close> can be encoded, the request of the stream resolution is the
  proxy, the encoded target, and \<open>&t=\<close> with the time of the call; the parameters of the
  request are \<open>url\<close> (the encoded target) and \<open>t\<close> (the time); and the parameters of the
  target are the identifier, \<open>p\<close>, \<open>q\<close>, \<open>format\<close> and \<open>otype\<close>: the time is on the outer
  URL only.
\<close>

theorem stream_request_timestamp:
  assumes "extractIds (fst (resolveShortLink e (trim input))) (snd (resolveShortLink e (trim input)))
             = (bvid, avid)
           \<or> extractIds2 (fst (resolveShortLink2 e (trim input))) (snd (resolveShortLink2 e (trim input)))
             = (bvid, avid)"
  shows "\<exists>enc. encodeURIComponent (parseUrl bvid avid) = Some enc
           \<and> proxyUrl bvid avid now = Some (PROXY_RAW @ enc @ js ''&t='' @ number_toString now)
           \<and> streamResponse e bvid avid
               = fetch_stream e (PROXY_RAW @ enc @ js ''&t='' @ number_toString (now_stream e))
           \<and> queryParams (PROXY_RAW @ enc @ js ''&t='' @ number_toString now)
               = [(js ''url'', enc), (js ''t'', number_toString now)]
           \<and> queryParams (parseUrl bvid avid) =
               [(if bvid \<noteq> [] then js ''bv'' else js ''av'', if bvid \<noteq> [] then bvid else avid),
                (js ''p'', js ''1''), (js ''q'', js ''80''), (js ''format'', js ''mp4''),
                (js ''otype'', js ''json'')]"
proof -
  have ids: "(\<forall>c \<in> set bvid. isAlnum c) \<and> (\<forall>c \<in> set avid. isAlnum c)"
    using assms
  proof
    assume "extractIds (fst (resolveShortLink e (trim input))) (snd (resolveShortLink e (trim input)))
             = (bvid, avid)"
    from extractIds_alnum [OF resolveShortLink_bvid this] show ?thesis .
  next
    assume a: "extractIds2 (fst (resolveShortLink2 e (trim input))) (snd (resolveShortLink2 e (trim input)))
             = (bvid, avid)"
    show ?thesis
    proof (cases "snd (resolveShortLink2 e (trim input)) = []")
      case True
      with a have "extractIds (fst (resolveShortLink2 e (trim input))) [] = (bvid, avid)"
        by (simp add: extractIds2_def)
      from extractIds_alnum [OF _ this] show ?thesis by simp
    next
      case False
      with a have "bvid = snd (resolveShortLink2 e (trim input))" "avid = []"
        by (simp_all add: extractIds2_def)
      with resolveShortLink2_bvid [of e "trim input"] show ?thesis by simp
    qed
  qed
  have ascii: "\<forall>c \<in> set (parseUrl bvid avid). c < 55296"
    using ids alnum_facts by (auto simp: parseUrl_def PARSER_API_def js_def)
  from encode_total [OF ascii] obtain enc where enc: "encodeURIComponent (parseUrl bvid avid) = Some enc"
    by blast
  have p: "proxyUrl bvid avid t = Some (PROXY_RAW @ enc @ js ''&t='' @ number_toString t)" for t
    by (simp add: proxyUrl_def enc)
  have sr: "streamResponse e bvid avid
               = fetch_stream e (PROXY_RAW @ enc @ js ''&t='' @ number_toString (now_stream e))"
    by (simp add: streamResponse_def p)
  from ids have i: "\<forall>c \<in> set bvid. isAlnum c" "\<forall>c \<in> set avid. isAlnum c" by simp_all
  from enc p sr outer_params [OF encode_no_amp [OF enc] number_toString_no_amp, of now]
    inner_params [OF i]
  show ?thesis by blast
qed

theorem stream_request_timestamp_witness:
  "extractIds (fst (resolveShortLink offline (trim (js ''https://www.bilibili.com/video/BV1GJ411x7h7''))))
       (snd (resolveShortLink offline (trim (js ''https://www.bilibili.com/video/BV1GJ411x7h7''))))
     = (js ''BV1GJ411x7h7'', [])
   \<and> (\<exists>enc. encodeURIComponent (parseUrl (js ''BV1GJ411x7h7'') []) = Some enc
          \<and> proxyUrl (js ''BV1GJ411x7h7'') [] 1700000000002
              = Some (PROXY_RAW @ enc @ js ''&t='' @ js ''1700000000002'')
          \<and> queryParams (PROXY_RAW @ enc @ js ''&t='' @ js ''1700000000002'')
              = [(js ''url'', enc), (js ''t'', js ''1700000000002'')])
   \<and> proxyUrl (js ''BV1GJ411x7h7'') [] 1700000000002
       = Some (js (''https://api.allorigins.win/raw?url=https%3A%2F%2Fapi.injahow.cn%2Fbparse%2F''
                   @ ''%3Fbv%3DBV1GJ411x7h7%26p%3D1%26q%3D80%26format%3Dmp4%26otype%3Djson''
                   @ ''&t=1700000000002''))"
proof -
  have h: "extractIds (fst (resolveShortLink offline (trim (js ''https://www.bilibili.com/video/BV1GJ411x7h7''))))
       (snd (resolveShortLink offline (trim (js ''https://www.bilibili.com/video/BV1GJ411x7h7''))))
     = (js ''BV1GJ411x7h7'', [])"
    by code_simp
  have n: "number_toString 1700000000002 = js ''1700000000002''"
    by code_simp
  have u: "proxyUrl (js ''BV1GJ411x7h7'') [] 1700000000002
       = Some (js (''https://api.allorigins.win/raw?url=https%3A%2F%2Fapi.injahow.cn%2Fbparse%2F''
                   @ ''%3Fbv%3DBV1GJ411x7h7%26p%3D1%26q%3D80%26format%3Dmp4%26otype%3Djson''
                   @ ''&t=1700000000002''))"
    by code_simp
  from stream_request_timestamp [OF disjI1 [OF h], where now = 1700000000002] h n u
  show ?thesis by auto
qed

text \<open>
  Claim C6 as stated fails: for the video \<open>BV1GJ411x7h7\<close> the target URL of the parser
  service has the parameters \<open>bv\<close>, \<open>p\<close>, \<open>q\<close>, \<open>format\<close> and \<open>otype\<close>, and no \<open>t\<close>.
\<close>

theorem inner_target_has_no_timestamp:
  "extractIds (js ''https://www.bilibili.com/video/BV1GJ411x7h7'') [] = (js ''BV1GJ411x7h7'', [])
   \<and> parseUrl (js ''BV1GJ411x7h7'') []
       = js ''https://api.injahow.cn/bparse/?bv=BV1GJ411x7h7&p=1&q=80&format=mp4&otype=json''
   \<and> map fst (queryParams (parseUrl (js ''BV1GJ411x7h7'') []))
       = [js ''bv'', js ''p'', js ''q'', js ''format'', js ''otype'']
   \<and> map_of (queryParams (parseUrl (js ''BV1GJ411x7h7'') [])) (js ''t'') = None"
  by code_simp

end
